theory Spec2Isabelle
  imports Main "HOL-Library.Sublist"
begin

section \<open>Python values, exceptions and the process state\<close>

text \<open>
  The values the program handles dynamically: the responses of the token provider are
  dictionaries with string keys, whose fields are strings, integers (error codes), lists
  or nested dictionaries; a missing response is \<open>None\<close>. A dictionary is an association
  list read with \<open>map_of\<close>. A \<open>string\<close> stands for a Python \<open>str\<close>, one
  \<open>char\<close> for each code point.
\<close>

datatype pyval =
    PNone
  | PInt int
  | PStr string
  | PList "pyval list"
  | PDict "(string \<times> pyval) list"

text \<open>Python truthiness, as used by \<open>if x\<close> and \<open>not x\<close>.\<close>

fun truthy :: "pyval \<Rightarrow> bool" where
  "truthy PNone = False"
| "truthy (PInt i) = (i \<noteq> 0)"
| "truthy (PStr s) = (s \<noteq> [])"
| "truthy (PList xs) = (xs \<noteq> [])"
| "truthy (PDict kvs) = (kvs \<noteq> [])"

text \<open>
  An f-string or message is kept as its parts: \<open>Lit\<close> for literal text and \<open>Fmt v\<close> for
  an interpolated value \<open>{v}\<close>, so that no \<open>repr\<close> has to be computed.
\<close>

datatype part = Lit string | Fmt pyval

text \<open>
  Exception classes, as far as the program raises or catches them by name; all of them
  derive from \<open>Exception\<close>. \<open>OtherError\<close> stands for any further class a library raises.
\<close>

datatype exc_class =
    Exception | ValueError | TypeError | IndexError | ImportError | RuntimeError | OSError
  | OtherError string

datatype exn = Exn exc_class "part list"

fun exn_class :: "exn \<Rightarrow> exc_class" where
  "exn_class (Exn c m) = c"

text \<open>
  The operator \<open>x in c\<close>: membership in a list, key membership in a dictionary, substring
  for two strings, \<open>TypeError\<close> otherwise. Values are compared structurally.
\<close>

fun py_in :: "pyval \<Rightarrow> pyval \<Rightarrow> exn + bool" where
  "py_in x (PList xs) = Inr (x \<in> set xs)"
| "py_in (PStr k) (PDict kvs) = Inr (map_of kvs k \<noteq> None)"
| "py_in x (PDict kvs) = Inr False"
| "py_in (PStr p) (PStr s) = Inr (sublist p s)"
| "py_in x (PStr s) = Inl (Exn TypeError [])"
| "py_in x (PInt i) = Inl (Exn TypeError [])"
| "py_in x PNone = Inl (Exn TypeError [])"

text \<open>Objects of the wrapped libraries, as plain data.\<close>

datatype persistence = EncryptedPersistence string | FilePersistence string

datatype token_cache = PersistedTokenCache persistence

datatype app = PublicApp string pyval token_cache

datatype capp = ConfidentialApp string string string

datatype cred = AzureCredential

text \<open>
  Every call that leaves the program (a library call, a file removal, a print) is
  recorded, in order, with its arguments.
\<close>

datatype event =
    Print "part list"
  | Call_build_encrypted_persistence string
  | Call_PublicClientApplication string pyval token_cache
  | Call_get_accounts app string
  | Call_os_remove string
  | Call_acquire_token_silent app "string list" pyval
  | Call_acquire_token_interactive app "string list" string
  | Call_ConfidentialClientApplication string string string
  | Call_acquire_token_for_client capp "string list"
  | Call_DefaultAzureCredential
  | Call_credential_get_token cred string string

text \<open>
  The process state: the two module globals \<open>_token_location\<close> and \<open>_username\<close>, the
  environment variables, and the record of calls made so far.
\<close>

record world =
  g_token_location :: string
  g_username :: string
  environ :: "string \<Rightarrow> string option"
  trace :: "event list"

definition initial_world :: "(string \<Rightarrow> string option) \<Rightarrow> world" where
  "initial_world env =
     \<lparr>g_token_location = ''token_cache.bin'', g_username = '''', environ = env, trace = []\<rparr>"

text \<open>
  A computation returns a value or raises, and leaves a state either way.
\<close>

type_synonym 'a res = "(exn + 'a) \<times> world"

definition exc_return :: "'a \<Rightarrow> world \<Rightarrow> 'a res" where
  "exc_return x w = (Inr x, w)"

definition exc_raise :: "exn \<Rightarrow> world \<Rightarrow> 'a res" where
  "exc_raise e w = (Inl e, w)"

definition exc_bind :: "(world \<Rightarrow> 'a res) \<Rightarrow> ('a \<Rightarrow> world \<Rightarrow> 'b res) \<Rightarrow> world \<Rightarrow> 'b res" where
  "exc_bind m f w = (case m w of (Inl e, w') \<Rightarrow> (Inl e, w') | (Inr x, w') \<Rightarrow> f x w')"

text \<open>\<open>try: m except Exception: h\<close> (every modelled class derives from \<open>Exception\<close>).\<close>

definition exc_try :: "(world \<Rightarrow> 'a res) \<Rightarrow> (exn \<Rightarrow> world \<Rightarrow> 'a res) \<Rightarrow> world \<Rightarrow> 'a res" where
  "exc_try m h w = (case m w of (Inl e, w') \<Rightarrow> h e w' | (Inr x, w') \<Rightarrow> (Inr x, w'))"

text \<open>An outside call: its answer is read in the current state, and it is recorded.\<close>

definition call :: "event \<Rightarrow> (world \<Rightarrow> exn + 'a) \<Rightarrow> world \<Rightarrow> 'a res" where
  "call ev f w = (f w, w\<lparr>trace := trace w @ [ev]\<rparr>)"

text \<open>\<open>if verbose: print(msg)\<close>.\<close>

definition say :: "bool \<Rightarrow> part list \<Rightarrow> world \<Rightarrow> unit res" where
  "say verbose msg w = (if verbose then (Inr (), w\<lparr>trace := trace w @ [Print msg]\<rparr>) else (Inr (), w))"

section \<open>Module \<open>bearerauth\<close>: globals\<close>

text \<open>\<open>set_token_location\<close>, lines 30 to 48.\<close>

definition set_token_location :: "pyval \<Rightarrow> world \<Rightarrow> unit res" where
  "set_token_location location w =
     (case location of
        PStr s \<Rightarrow>
          if length s > 4 \<and> sublist ''.'' s
          then (Inr (), w\<lparr>g_token_location := s\<rparr>)
          else (Inl (Exn ValueError [Lit ''Invalid location string '', Fmt location]), w)
      | _ \<Rightarrow> (Inl (Exn TypeError [Lit ''Input location shall be a string.'']), w))"

definition get_token_location :: "world \<Rightarrow> string" where
  "get_token_location w = g_token_location w"

definition set_user_name :: "string \<Rightarrow> world \<Rightarrow> world" where
  "set_user_name username w = w\<lparr>g_username := username\<rparr>"

text \<open>
  \<open>get_login_name\<close>, lines 82 to 91: the loop over the four names returns the value of
  the first one for which \<open>os.getenv\<close> is not \<open>None\<close>; falling off the end returns
  \<open>None\<close>.
\<close>

definition env_names :: "string list" where
  "env_names = [''LOGNAME'', ''USER'', ''LNAME'', ''USERNAME'']"

fun get_login_name_loop :: "(string \<Rightarrow> string option) \<Rightarrow> string list \<Rightarrow> string option" where
  "get_login_name_loop getenv [] = None"
| "get_login_name_loop getenv (name # names) =
     (case getenv name of
        Some v \<Rightarrow> Some v
      | None \<Rightarrow> get_login_name_loop getenv names)"

definition get_login_name :: "world \<Rightarrow> string option" where
  "get_login_name w = get_login_name_loop (environ w) env_names"

text \<open>\<open>get_user_name\<close>, lines 70 to 79.\<close>

definition get_user_name :: "world \<Rightarrow> string option" where
  "get_user_name w =
     (if g_username w = [] then get_login_name w else Some (g_username w))"

text \<open>
  The reading of the specification for \<open>get_user_name\<close>: the first \<^emph>\<open>non-empty\<close> value
  among the four variables, in order, and an empty result when there is none.
\<close>

fun first_nonempty :: "(string \<Rightarrow> string option) \<Rightarrow> string list \<Rightarrow> string option" where
  "first_nonempty getenv [] = None"
| "first_nonempty getenv (name # names) =
     (case getenv name of
        Some v \<Rightarrow> if v \<noteq> [] then Some v else first_nonempty getenv names
      | None \<Rightarrow> first_nonempty getenv names)"

definition spec_get_user_name :: "world \<Rightarrow> string option" where
  "spec_get_user_name w =
     (if g_username w = [] then first_nonempty (environ w) env_names else Some (g_username w))"

section \<open>Class \<open>BearerAuth\<close>\<close>

record BearerAuth =
  token :: pyval

text \<open>\<open>BearerAuth.__init__\<close>, lines 143 to 147.\<close>

definition BearerAuth_init :: "pyval \<Rightarrow> BearerAuth" where
  "BearerAuth_init tok =
     (case tok of
        PDict kvs \<Rightarrow>
          (case map_of kvs ''access_result'' of
             Some v \<Rightarrow> \<lparr>token = v\<rparr>
           | None \<Rightarrow> \<lparr>token = tok\<rparr>)
      | _ \<Rightarrow> \<lparr>token = tok\<rparr>)"

section \<open>The wrapped libraries\<close>

text \<open>
  The token provider, the cache persistence, the credential chain and the file system are
  outside the program. Each of their operations is a parameter: a function of the current
  state (so that its answer may depend on what happened before) that returns a value or
  raises.
\<close>

record lib =
  build_encrypted_persistence :: "world \<Rightarrow> string \<Rightarrow> exn + persistence"
  PublicClientApplication :: "world \<Rightarrow> string \<Rightarrow> pyval \<Rightarrow> token_cache \<Rightarrow> exn + app"
  get_accounts :: "world \<Rightarrow> app \<Rightarrow> string \<Rightarrow> exn + pyval list"
  acquire_token_silent :: "world \<Rightarrow> app \<Rightarrow> string list \<Rightarrow> pyval \<Rightarrow> exn + pyval"
  acquire_token_interactive :: "world \<Rightarrow> app \<Rightarrow> string list \<Rightarrow> string \<Rightarrow> exn + pyval"
  isfile :: "world \<Rightarrow> string \<Rightarrow> bool"
  os_remove :: "world \<Rightarrow> string \<Rightarrow> exn + unit"
  ConfidentialClientApplication :: "world \<Rightarrow> string \<Rightarrow> string \<Rightarrow> string \<Rightarrow> exn + capp"
  acquire_token_for_client :: "world \<Rightarrow> capp \<Rightarrow> string list \<Rightarrow> exn + (string \<times> pyval) list option"
  DefaultAzureCredential :: "world \<Rightarrow> exn + cred"
  credential_get_token :: "world \<Rightarrow> cred \<Rightarrow> string \<Rightarrow> string \<Rightarrow> exn + (string \<times> int)"

definition lift :: "exn + 'a \<Rightarrow> world \<Rightarrow> 'a res" where
  "lift r w = (r, w)"

section \<open>Module \<open>bearerauth\<close>: acquiring a token\<close>

text \<open>
  \<open>get_app_with_cache\<close>, lines 94 to 122. \<open>ImportError\<close> and \<open>RuntimeError\<close> from the
  encrypted persistence fall back to a plain file; any other exception propagates.
\<close>

definition get_app_with_cache :: "lib \<Rightarrow> string \<Rightarrow> pyval \<Rightarrow> pyval \<Rightarrow> world \<Rightarrow> app res" where
  "get_app_with_cache L client_id authority token_location =
     exc_bind
       (case token_location of
          PStr s \<Rightarrow> if length s > 0 then set_token_location token_location else exc_return ()
        | _ \<Rightarrow> exc_return ())
       (\<lambda>_. exc_bind
          (exc_try
             (\<lambda>w. call (Call_build_encrypted_persistence (get_token_location w))
                       (\<lambda>w'. build_encrypted_persistence L w' (get_token_location w')) w)
             (\<lambda>e. if exn_class e = ImportError \<or> exn_class e = RuntimeError
                  then (\<lambda>w. exc_return (FilePersistence (get_token_location w)) w)
                  else exc_raise e))
          (\<lambda>p. call (Call_PublicClientApplication client_id authority (PersistedTokenCache p))
                 (\<lambda>w. PublicClientApplication L w client_id authority (PersistedTokenCache p))))"

definition get_tenant_authority :: "string \<Rightarrow> string" where
  "get_tenant_authority tenant_id = ''https://login.microsoftonline.com/'' @ tenant_id"

text \<open>\<open>BearerAuth.get_auth\<close>, lines 180 and 181: the default authority.\<close>

definition resolve_authority :: "string \<Rightarrow> pyval \<Rightarrow> pyval" where
  "resolve_authority tenantID authority =
     (if authority = PNone \<or> authority = PStr []
      then PStr (get_tenant_authority tenantID) else authority)"

text \<open>Lines 187 and 188: an empty token location is replaced by the global one.\<close>

definition default_token_location :: "pyval \<Rightarrow> world \<Rightarrow> pyval" where
  "default_token_location token_location w =
     (if \<not> truthy token_location then PStr (get_token_location w) else token_location)"

text \<open>
  Lines 191 to 194, and again 202 to 205: one attempt to open the cache and list the
  accounts.
\<close>

definition open_and_list ::
  "lib \<Rightarrow> string \<Rightarrow> pyval \<Rightarrow> string \<Rightarrow> pyval \<Rightarrow> world \<Rightarrow> (app \<times> pyval list) res" where
  "open_and_list L clientID authority username token_location =
     exc_bind (get_app_with_cache L clientID authority token_location)
       (\<lambda>a. exc_bind (call (Call_get_accounts a username) (\<lambda>w. get_accounts L w a username))
          (\<lambda>accounts. exc_return (a, accounts)))"

text \<open>Lines 196 to 201: the cache file at the global location is removed if it is a file.\<close>

definition delete_cache_file :: "lib \<Rightarrow> bool \<Rightarrow> world \<Rightarrow> unit res" where
  "delete_cache_file L verbose w =
     (if isfile L w (g_token_location w)
      then exc_bind
             (say verbose
                [Lit ''Failed getting accounts from app with cache. Attempts to delete cache-file at '',
                 Fmt (PStr (g_token_location w))])
             (\<lambda>_. call (Call_os_remove (g_token_location w))
                      (\<lambda>w'. os_remove L w' (g_token_location w))) w
      else exc_return () w)"

text \<open>Lines 186 to 205: the \<open>try\<close> statement with its handler.\<close>

definition open_cache_and_accounts ::
  "lib \<Rightarrow> string \<Rightarrow> pyval \<Rightarrow> string \<Rightarrow> pyval \<Rightarrow> bool \<Rightarrow> world \<Rightarrow> (app \<times> pyval list) res" where
  "open_cache_and_accounts L clientID authority username token_location verbose w =
     (let tl = default_token_location token_location w in
      exc_try (open_and_list L clientID authority username tl)
        (\<lambda>e. exc_bind (delete_cache_file L verbose)
               (\<lambda>_. open_and_list L clientID authority username tl)) w)"

text \<open>Lines 207 to 211: silent acquisition for the first account, if there is one.\<close>

definition silent_step ::
  "lib \<Rightarrow> app \<Rightarrow> string list \<Rightarrow> string \<Rightarrow> pyval list \<Rightarrow> bool \<Rightarrow> world \<Rightarrow> pyval res" where
  "silent_step L a scopes username accounts verbose =
     (case accounts of
        [] \<Rightarrow> exc_return PNone
      | account # _ \<Rightarrow>
          exc_bind (say verbose [Lit ''Found account in token cache: '', Fmt (PStr username)])
            (\<lambda>_. exc_bind
               (say verbose
                  [Lit ''Attempting to obtain a new Access Token using the Refresh Token''])
               (\<lambda>_. call (Call_acquire_token_silent a scopes account)
                        (\<lambda>w. acquire_token_silent L w a scopes account))))"

text \<open>The condition of lines 213 to 217.\<close>

definition needs_interactive :: "pyval \<Rightarrow> exn + bool" where
  "needs_interactive result =
     (case result of
        PNone \<Rightarrow> Inr True
      | PDict kvs \<Rightarrow>
          (case map_of kvs ''error_codes'' of
             None \<Rightarrow> Inr False
           | Some codes \<Rightarrow> py_in (PInt 50173) codes)
      | _ \<Rightarrow> Inr False)"

text \<open>Lines 213 to 223: interactive acquisition, with the tenant as domain hint.\<close>

definition interactive_step ::
  "lib \<Rightarrow> app \<Rightarrow> string list \<Rightarrow> string \<Rightarrow> pyval \<Rightarrow> bool \<Rightarrow> world \<Rightarrow> pyval res" where
  "interactive_step L a scopes tenantID result verbose =
     (case needs_interactive result of
        Inl e \<Rightarrow> exc_raise e
      | Inr True \<Rightarrow>
          exc_bind
            (say verbose
               [Lit ''Interactive Authentication required to obtain a new Access Token.''])
            (\<lambda>_. call (Call_acquire_token_interactive a scopes tenantID)
                     (\<lambda>w. acquire_token_interactive L w a scopes tenantID))
      | Inr False \<Rightarrow> exc_return result)"

text \<open>The condition of lines 225 to 230, giving the access token when it holds.\<close>

definition access_token_of :: "pyval \<Rightarrow> pyval option" where
  "access_token_of result =
     (case result of
        PDict kvs \<Rightarrow>
          (case map_of kvs ''access_token'' of
             Some v \<Rightarrow> if truthy result \<and> truthy v then Some v else None
           | None \<Rightarrow> None)
      | _ \<Rightarrow> None)"

text \<open>Lines 225 to 237.\<close>

definition finish :: "pyval \<Rightarrow> bool \<Rightarrow> world \<Rightarrow> BearerAuth res" where
  "finish result verbose =
     (case access_token_of result of
        Some v \<Rightarrow> exc_bind (say verbose [Lit ''Success'']) (\<lambda>_. exc_return (BearerAuth_init v))
      | None \<Rightarrow>
          exc_bind (say verbose [Lit (''Failed, returned:'' @ [CHR 0x0A]), Fmt result])
            (\<lambda>_. exc_raise (Exn Exception [Lit ''Failed authenticating''])))"

text \<open>Lines 180 to 223: everything up to the final acquisition result.\<close>

definition get_auth_result ::
  "lib \<Rightarrow> string \<Rightarrow> string \<Rightarrow> string list \<Rightarrow> string \<Rightarrow> pyval \<Rightarrow> pyval \<Rightarrow> bool \<Rightarrow> world \<Rightarrow> pyval res" where
  "get_auth_result L tenantID clientID scopes username token_location authority verbose =
     exc_bind
       (open_cache_and_accounts L clientID (resolve_authority tenantID authority) username
          token_location verbose)
       (\<lambda>(a, accounts). exc_bind (silent_step L a scopes username accounts verbose)
          (\<lambda>result. interactive_step L a scopes tenantID result verbose))"

text \<open>\<open>BearerAuth.get_auth\<close>, lines 154 to 237.\<close>

definition get_auth ::
  "lib \<Rightarrow> string \<Rightarrow> string \<Rightarrow> string list \<Rightarrow> string \<Rightarrow> pyval \<Rightarrow> pyval \<Rightarrow> bool \<Rightarrow> world \<Rightarrow> BearerAuth res" where
  "get_auth L tenantID clientID scopes username token_location authority verbose =
     exc_bind
       (get_auth_result L tenantID clientID scopes username token_location authority verbose)
       (\<lambda>result. finish result verbose)"

text \<open>
  The terminal failure of \<open>get_auth\<close> (line 237), which the specification calls
  \<open>AuthenticationError\<close>.
\<close>

definition AuthenticationError :: exn where
  "AuthenticationError = Exn Exception [Lit ''Failed authenticating'']"

text \<open>The calls of the interactive flow among the recorded ones.\<close>

fun is_interactive :: "event \<Rightarrow> bool" where
  "is_interactive (Call_acquire_token_interactive a scopes hint) = True"
| "is_interactive _ = False"

definition interactive_calls :: "world \<Rightarrow> event list" where
  "interactive_calls w = filter is_interactive (trace w)"

text \<open>The module function \<open>get_token\<close>, lines 15 to 27.\<close>

definition bearerauth_get_token :: "lib \<Rightarrow> string \<Rightarrow> string \<Rightarrow> string list \<Rightarrow> world \<Rightarrow> pyval res" where
  "bearerauth_get_token L tenant_id client_id scopes =
     exc_bind (get_auth L tenant_id client_id scopes [] (PStr []) (PStr []) False)
       (\<lambda>b. exc_return (token b))"

section \<open>Class \<open>Authenticator\<close>\<close>

text \<open>
  The attributes set by \<open>__init__\<close>, lines 37 to 47. An \<open>Optional[str]\<close> is a
  \<open>string option\<close>; \<open>token\<close> and \<open>user_name\<close> start as the empty string.
\<close>

record Authenticator =
  self_tenant_id :: "string option"
  self_client_id :: "string option"
  self_client_secret :: "string option"
  self_authority :: "string option"
  self_redirect_uri :: "string option"
  self_token :: string
  self_user_name :: string
  self_scopes :: "string list option"

text \<open>Truthiness of an \<open>Optional[str]\<close>.\<close>

fun opt_truthy :: "string option \<Rightarrow> bool" where
  "opt_truthy None = False"
| "opt_truthy (Some s) = (s \<noteq> [])"

definition get_client_id :: "Authenticator \<Rightarrow> exn + string" where
  "get_client_id self =
     (case self_client_id self of
        Some s \<Rightarrow> if s \<noteq> [] then Inr s else Inl (Exn ValueError [Lit ''Client ID is not set''])
      | None \<Rightarrow> Inl (Exn ValueError [Lit ''Client ID is not set'']))"

definition get_tenant_id :: "Authenticator \<Rightarrow> exn + string" where
  "get_tenant_id self =
     (case self_tenant_id self of
        Some s \<Rightarrow> if s \<noteq> [] then Inr s else Inl (Exn ValueError [Lit ''Tenant ID is not set''])
      | None \<Rightarrow> Inl (Exn ValueError [Lit ''Tenant ID is not set'']))"

text \<open>\<open>get_scope\<close>, lines 73 to 76.\<close>

definition get_scope :: "Authenticator \<Rightarrow> exn + string list" where
  "get_scope self =
     (case self_scopes self of
        Some (s # ss) \<Rightarrow> Inr (s # ss)
      | _ \<Rightarrow>
          (case get_client_id self of
             Inl e \<Rightarrow> Inl e
           | Inr c \<Rightarrow> Inr [c @ ''/.default'']))"

text \<open>
  \<open>str.upper\<close>, on the letters a to z; other characters are left as they are.
\<close>

definition py_upper :: "string \<Rightarrow> string" where
  "py_upper s =
     map (\<lambda>c. if 97 \<le> (of_char c :: nat) \<and> (of_char c :: nat) \<le> 122
              then char_of ((of_char c :: nat) - 32) else c) s"

text \<open>
  \<open>get_az_token\<close>, lines 105 to 115. The argument is a list of scopes or one scope; the
  credential object is created before the tenant id is read.
\<close>

definition get_az_token :: "lib \<Rightarrow> Authenticator \<Rightarrow> string list + string \<Rightarrow> world \<Rightarrow> pyval res" where
  "get_az_token L self scope =
     exc_bind
       (case scope of
          Inl [] \<Rightarrow> exc_raise (Exn IndexError [])
        | Inl (s # ss) \<Rightarrow> exc_return s
        | Inr s \<Rightarrow> exc_return s)
       (\<lambda>s. exc_bind (call Call_DefaultAzureCredential (\<lambda>w. DefaultAzureCredential L w))
          (\<lambda>credential. exc_bind (lift (get_tenant_id self))
             (\<lambda>tid. exc_bind
                (call (Call_credential_get_token credential s tid)
                   (\<lambda>w. credential_get_token L w credential s tid))
                (\<lambda>tok. exc_return (PStr (fst tok))))))"

text \<open>
  A method that may assign to an attribute returns the object as well, whether it raises
  or not.
\<close>

type_synonym 'a mres = "(exn + 'a) \<times> Authenticator \<times> world"

text \<open>\<open>get_public_app_token\<close>, lines 117 to 136. The argument \<open>scope\<close> is not used.\<close>

definition get_public_app_token ::
  "lib \<Rightarrow> Authenticator \<Rightarrow> string option \<Rightarrow> string list option \<Rightarrow> world \<Rightarrow> pyval mres" where
  "get_public_app_token L self username scope w =
     (let (self', u) =
            (case username of
               None \<Rightarrow> (self, self_user_name self)
             | Some n \<Rightarrow> if n = [] then (self, self_user_name self)
                         else (self\<lparr>self_user_name := n\<rparr>, n));
          (r, w') =
            exc_bind (lift (get_tenant_id self'))
              (\<lambda>tid. exc_bind (lift (get_client_id self'))
                 (\<lambda>cid. exc_bind (lift (get_scope self'))
                    (\<lambda>sc. exc_bind (get_auth L tid cid sc (py_upper u) (PStr []) (PStr []) False)
                       (\<lambda>auth. exc_return (token auth))))) w
      in (r, self', w'))"

text \<open>Lines 85 to 98 of \<open>get_token\<close>: the exchange with the client secret.\<close>

definition client_secret_token ::
  "lib \<Rightarrow> Authenticator \<Rightarrow> string \<Rightarrow> string list \<Rightarrow> world \<Rightarrow> pyval res" where
  "client_secret_token L self secret scopes =
     exc_bind (lift (get_client_id self))
       (\<lambda>cid. exc_bind (lift (get_tenant_id self))
          (\<lambda>tid. exc_bind
             (call (Call_ConfidentialClientApplication cid secret
                      (''https://login.microsoftonline.com/'' @ tid))
                (\<lambda>w. ConfidentialClientApplication L w cid secret
                        (''https://login.microsoftonline.com/'' @ tid)))
             (\<lambda>c. exc_bind
                (call (Call_acquire_token_for_client c scopes)
                   (\<lambda>w. acquire_token_for_client L w c scopes))
                (\<lambda>d. case d of
                        None \<Rightarrow> exc_raise (Exn ValueError [Lit ''Could not get token.''])
                      | Some kvs \<Rightarrow>
                          (case map_of kvs ''access_token'' of
                             None \<Rightarrow>
                               exc_raise (Exn ValueError
                                 [Lit ''Could not get token: '',
                                  Fmt (case map_of kvs ''error_description'' of
                                         Some x \<Rightarrow> x
                                       | None \<Rightarrow>
                                           (case map_of kvs ''error'' of
                                              Some y \<Rightarrow> y
                                            | None \<Rightarrow> PNone))])
                           | Some v \<Rightarrow> exc_return v)))))"

text \<open>Lines 100 to 103 of \<open>get_token\<close>: no client secret.\<close>

definition get_token_without_secret :: "lib \<Rightarrow> Authenticator \<Rightarrow> world \<Rightarrow> pyval mres" where
  "get_token_without_secret L self w =
     (if opt_truthy (self_client_id self)
      then get_public_app_token L self None None w
      else (let (r, w') = exc_bind (lift (get_scope self)) (\<lambda>s. get_az_token L self (Inl s)) w
            in (r, self, w')))"

text \<open>\<open>Authenticator.get_token\<close>, lines 78 to 103.\<close>

definition get_token ::
  "lib \<Rightarrow> Authenticator \<Rightarrow> string list option \<Rightarrow> world \<Rightarrow> pyval mres" where
  "get_token L self scopes w =
     (if self_token self \<noteq> [] then (Inr (PStr (self_token self)), self, w)
      else
        (case (case scopes of None \<Rightarrow> get_scope self | Some sc \<Rightarrow> Inr sc) of
           Inl e \<Rightarrow> (Inl e, self, w)
         | Inr sc \<Rightarrow>
             (case self_client_secret self of
                Some secret \<Rightarrow>
                  if secret \<noteq> []
                  then (let (r, w') = client_secret_token L self secret sc w in (r, self, w'))
                  else get_token_without_secret L self w
              | None \<Rightarrow> get_token_without_secret L self w)))"

text \<open>The calls of each strategy among the recorded ones.\<close>

fun is_confidential_call :: "event \<Rightarrow> bool" where
  "is_confidential_call (Call_ConfidentialClientApplication c s a) = True"
| "is_confidential_call (Call_acquire_token_for_client c scopes) = True"
| "is_confidential_call _ = False"

fun is_ambient_call :: "event \<Rightarrow> bool" where
  "is_ambient_call Call_DefaultAzureCredential = True"
| "is_ambient_call (Call_credential_get_token c s t) = True"
| "is_ambient_call _ = False"

fun is_public_call :: "event \<Rightarrow> bool" where
  "is_public_call (Call_ConfidentialClientApplication c s a) = False"
| "is_public_call (Call_acquire_token_for_client c scopes) = False"
| "is_public_call Call_DefaultAzureCredential = False"
| "is_public_call (Call_credential_get_token c s t) = False"
| "is_public_call _ = True"

section \<open>Notions used to state the properties\<close>

text \<open>
  A computation emits only calls of kind \<open>Q\<close>: whatever it does, the record of calls
  afterwards is the one before, followed by calls that satisfy \<open>Q\<close>.
\<close>

definition emits :: "(event \<Rightarrow> bool) \<Rightarrow> (world \<Rightarrow> 'a res) \<Rightarrow> bool" where
  "emits Q m \<longleftrightarrow>
     (\<forall>w r w'. m w = (r, w') \<longrightarrow> (\<exists>evs. trace w' = trace w @ evs \<and> list_all Q evs))"

text \<open>
  The wording of the specification for the trigger of the interactive flow: the silent
  step gave no result, or an error response whose list of error codes contains 50173.
\<close>

definition no_result_or_50173 :: "pyval \<Rightarrow> bool" where
  "no_result_or_50173 result =
     (case result of
        PNone \<Rightarrow> True
      | PDict kvs \<Rightarrow>
          (case map_of kvs ''error_codes'' of
             Some (PList codes) \<Rightarrow> PInt 50173 \<in> set codes
           | _ \<Rightarrow> False)
      | _ \<Rightarrow> False)"

text \<open>
  A silent acquisition that succeeded: a response with a non-empty access token and no
  error codes.
\<close>

definition silent_succeeded :: "pyval \<Rightarrow> bool" where
  "silent_succeeded result =
     (case result of
        PDict kvs \<Rightarrow> map_of kvs ''error_codes'' = None \<and> access_token_of result \<noteq> None
      | _ \<Rightarrow> False)"

text \<open>A plain, non-empty string.\<close>

fun is_nonempty_str :: "pyval \<Rightarrow> bool" where
  "is_nonempty_str (PStr s) = (s \<noteq> [])"
| "is_nonempty_str _ = False"

fun is_get_accounts :: "event \<Rightarrow> bool" where
  "is_get_accounts (Call_get_accounts a u) = True"
| "is_get_accounts _ = False"

section \<open>Concrete collaborators and states\<close>

definition no_env :: "string \<Rightarrow> string option" where
  "no_env name = None"

definition w_init :: world where
  "w_init = initial_world no_env"

text \<open>An environment in which \<open>LOGNAME\<close> is set but empty and \<open>USER\<close> is \<open>bob\<close>.\<close>

definition env_empty_logname :: "string \<Rightarrow> string option" where
  "env_empty_logname name =
     (if name = ''LOGNAME'' then Some [] else if name = ''USER'' then Some ''bob'' else None)"

definition w_empty_logname :: world where
  "w_empty_logname = initial_world env_empty_logname"

text \<open>
  Libraries that never raise: the cache is empty and there is no cache file, the
  interactive flow and the client-credential exchange return a token.
\<close>

definition lib_ok :: lib where
  "lib_ok =
     \<lparr>build_encrypted_persistence = (\<lambda>w loc. Inr (EncryptedPersistence loc)),
      PublicClientApplication = (\<lambda>w c au t. Inr (PublicApp c au t)),
      get_accounts = (\<lambda>w a u. Inr []),
      acquire_token_silent = (\<lambda>w a sc acct. Inr PNone),
      acquire_token_interactive = (\<lambda>w a sc hint. Inr (PDict [(''access_token'', PStr ''XYZ'')])),
      isfile = (\<lambda>w loc. False),
      os_remove = (\<lambda>w loc. Inr ()),
      ConfidentialClientApplication = (\<lambda>w c s au. Inr (ConfidentialApp c s au)),
      acquire_token_for_client = (\<lambda>w c sc. Inr (Some [(''access_token'', PStr ''CCT'')])),
      DefaultAzureCredential = (\<lambda>w. Inr AzureCredential),
      credential_get_token = (\<lambda>w c sc t. Inr (''AZT'', 0))\<rparr>"

text \<open>The application object for client \<open>C\<close> of tenant \<open>T\<close> with the default cache.\<close>

definition app_TC :: app where
  "app_TC =
     PublicApp ''C'' (PStr ''https://login.microsoftonline.com/T'')
       (PersistedTokenCache (EncryptedPersistence ''token_cache.bin''))"

definition an_account :: pyval where
  "an_account = PDict [(''username'', PStr ''U'')]"

text \<open>One cached account; silent acquisition succeeds.\<close>

definition lib_silent_ok :: lib where
  "lib_silent_ok =
     lib_ok\<lparr>get_accounts := (\<lambda>w a u. Inr [an_account]),
            acquire_token_silent := (\<lambda>w a sc acct. Inr (PDict [(''access_token'', PStr ''SIL'')]))\<rparr>"

text \<open>One cached account; silent acquisition answers with error code 50076 only.\<close>

definition lib_silent_50076 :: lib where
  "lib_silent_50076 =
     lib_ok\<lparr>get_accounts := (\<lambda>w a u. Inr [an_account]),
            acquire_token_silent :=
              (\<lambda>w a sc acct. Inr (PDict [(''error'', PStr ''interaction_required''),
                                          (''error_codes'', PList [PInt 50076])]))\<rparr>"

text \<open>One cached account; silent acquisition answers with error code 50173.\<close>

definition lib_silent_50173 :: lib where
  "lib_silent_50173 =
     lib_ok\<lparr>get_accounts := (\<lambda>w a u. Inr [an_account]),
            acquire_token_silent :=
              (\<lambda>w a sc acct. Inr (PDict [(''error'', PStr ''invalid_grant''),
                                          (''error_codes'', PList [PInt 50173])]))\<rparr>"

text \<open>
  Listing the accounts fails as long as the cache file has not been removed; the file
  exists.
\<close>

definition lib_corrupt_cache :: lib where
  "lib_corrupt_cache =
     lib_ok\<lparr>get_accounts :=
              (\<lambda>w a u. if Call_os_remove ''token_cache.bin'' \<in> set (trace w) then Inr []
                        else Inl (Exn (OtherError ''PersistenceDecryptionError'') [])),
            isfile := (\<lambda>w loc. Call_os_remove loc \<notin> set (trace w))\<rparr>"

text \<open>Listing the accounts always fails; there is no cache file.\<close>

definition lib_accounts_fail :: lib where
  "lib_accounts_fail =
     lib_ok\<lparr>get_accounts := (\<lambda>w a u. Inl (Exn (OtherError ''PersistenceDecryptionError'') []))\<rparr>"

text \<open>Listing the accounts fails, the cache file exists and cannot be removed.\<close>

definition lib_remove_fails :: lib where
  "lib_remove_fails =
     lib_ok\<lparr>get_accounts := (\<lambda>w a u. Inl (Exn (OtherError ''PersistenceDecryptionError'') [])),
            isfile := (\<lambda>w loc. True),
            os_remove := (\<lambda>w loc. Inl (Exn OSError [Lit ''Permission denied'']))\<rparr>"

text \<open>The client-credential exchange is refused.\<close>

definition lib_invalid_client :: lib where
  "lib_invalid_client =
     lib_ok\<lparr>acquire_token_for_client :=
              (\<lambda>w c sc. Inr (Some [(''error'', PStr ''invalid_client''),
                                   (''error_description'', PStr ''AADSTS7000215'')]))\<rparr>"

definition no_auth :: Authenticator where
  "no_auth =
     \<lparr>self_tenant_id = None, self_client_id = None, self_client_secret = None,
      self_authority = None, self_redirect_uri = None, self_token = [], self_user_name = [],
      self_scopes = Some []\<rparr>"

text \<open>
  Four authenticators, one for each strategy: a pre-set token (with a client secret set as
  well), a client secret, a client id only, and neither (scopes and tenant only).
\<close>

definition auth_preset :: Authenticator where
  "auth_preset = no_auth\<lparr>self_client_secret := Some ''s3'', self_token := ''TOK''\<rparr>"

definition auth_secret :: Authenticator where
  "auth_secret =
     no_auth\<lparr>self_tenant_id := Some ''T'', self_client_id := Some ''C'',
             self_client_secret := Some ''s3''\<rparr>"

definition auth_public :: Authenticator where
  "auth_public = no_auth\<lparr>self_tenant_id := Some ''T'', self_client_id := Some ''C''\<rparr>"

definition auth_ambient :: Authenticator where
  "auth_ambient = no_auth\<lparr>self_tenant_id := Some ''T'', self_scopes := Some [''S'']\<rparr>"

section \<open>Properties of the globals\<close>

lemma sublist_dot_iff: "sublist ''.'' s \<longleftrightarrow> CHR ''.'' \<in> set s"
  by (induction s) (auto simp: sublist_Cons_right)

text \<open>
  Claim C10. \<open>set_token_location\<close> stores its argument in the global token location
  exactly when the argument is a string longer than 4 characters that contains a dot;
  any other string raises \<open>ValueError\<close>, a value that is not a string raises
  \<open>TypeError\<close>, and whenever it raises the state is the one it was called in.
\<close>

theorem set_token_location_cases:
  "(4 < length s \<and> CHR ''.'' \<in> set s \<longrightarrow>
      set_token_location (PStr s) w = (Inr (), w\<lparr>g_token_location := s\<rparr>))
   \<and> (\<not> (4 < length s \<and> CHR ''.'' \<in> set s) \<longrightarrow>
      set_token_location (PStr s) w
        = (Inl (Exn ValueError [Lit ''Invalid location string '', Fmt (PStr s)]), w))
   \<and> ((\<forall>t. v \<noteq> PStr t) \<longrightarrow>
      set_token_location v w
        = (Inl (Exn TypeError [Lit ''Input location shall be a string.'']), w))"
  by (cases v) (simp_all add: set_token_location_def sublist_dot_iff)

theorem set_token_location_cases_witness:
  "set_token_location (PStr ''cache.bin'') (initial_world Map.empty)
     = (Inr (), (initial_world Map.empty)\<lparr>g_token_location := ''cache.bin''\<rparr>)
   \<and> set_token_location (PStr ''a.b'') (initial_world Map.empty)
     = (Inl (Exn ValueError [Lit ''Invalid location string '', Fmt (PStr ''a.b'')]),
        initial_world Map.empty)
   \<and> set_token_location (PStr ''cachebin'') (initial_world Map.empty)
     = (Inl (Exn ValueError [Lit ''Invalid location string '', Fmt (PStr ''cachebin'')]),
        initial_world Map.empty)
   \<and> set_token_location (PInt 7) (initial_world Map.empty)
     = (Inl (Exn TypeError [Lit ''Input location shall be a string.'']),
        initial_world Map.empty)"
  using set_token_location_cases [of "''cache.bin''" "initial_world Map.empty" "PInt 7"]
    set_token_location_cases [of "''a.b''" "initial_world Map.empty" "PInt 7"]
    set_token_location_cases [of "''cachebin''" "initial_world Map.empty" "PInt 7"]
  by simp

lemma get_login_name_loop_Some:
  "get_login_name_loop ge ns = Some v \<longleftrightarrow>
     (\<exists>i<length ns. ge (ns ! i) = Some v \<and> (\<forall>j<i. ge (ns ! j) = None))"
proof (induction ns)
  case Nil
  then show ?case by simp
next
  case (Cons n ns)
  show ?case
  proof (cases "ge n")
    case (Some u)
    show ?thesis
    proof
      assume "get_login_name_loop ge (n # ns) = Some v"
      with Some have "ge ((n # ns) ! 0) = Some v" by simp
      then show "\<exists>i<length (n # ns). ge ((n # ns) ! i) = Some v \<and> (\<forall>j<i. ge ((n # ns) ! j) = None)"
        by (intro exI[of _ 0]) simp
    next
      assume "\<exists>i<length (n # ns). ge ((n # ns) ! i) = Some v \<and> (\<forall>j<i. ge ((n # ns) ! j) = None)"
      then obtain i where i: "ge ((n # ns) ! i) = Some v" "\<forall>j<i. ge ((n # ns) ! j) = None"
        by blast
      have "i = 0"
      proof (rule ccontr)
        assume "i \<noteq> 0"
        then have "ge ((n # ns) ! 0) = None" using i(2) by blast
        with Some show False by simp
      qed
      with i(1) Some show "get_login_name_loop ge (n # ns) = Some v" by simp
    qed
  next
    case None
    have "(\<exists>i<length (n # ns). ge ((n # ns) ! i) = Some v \<and> (\<forall>j<i. ge ((n # ns) ! j) = None))
        \<longleftrightarrow> (\<exists>i<length ns. ge (ns ! i) = Some v \<and> (\<forall>j<i. ge (ns ! j) = None))"
      (is "?L \<longleftrightarrow> ?R")
    proof
      assume ?L
      then obtain i where i: "i < length (n # ns)" "ge ((n # ns) ! i) = Some v"
        "\<forall>j<i. ge ((n # ns) ! j) = None" by blast
      with None obtain k where k: "i = Suc k" by (cases i) auto
      have "\<forall>j<k. ge (ns ! j) = None"
      proof (intro allI impI)
        fix j assume "j < k"
        then have "Suc j < i" using k by simp
        with i(3) have "ge ((n # ns) ! Suc j) = None" by blast
        then show "ge (ns ! j) = None" by simp
      qed
      with i k show ?R by auto
    next
      assume ?R
      then obtain i where i: "i < length ns" "ge (ns ! i) = Some v" "\<forall>j<i. ge (ns ! j) = None"
        by blast
      have "\<forall>j<Suc i. ge ((n # ns) ! j) = None"
        using None i(3) by (auto simp: nth_Cons split: nat.splits)
      with i show ?L by (intro exI[of _ "Suc i"]) auto
    qed
    with None Cons show ?thesis by simp
  qed
qed

lemma get_login_name_loop_None:
  "get_login_name_loop ge ns = None \<longleftrightarrow> (\<forall>n\<in>set ns. ge n = None)"
  by (induction ns) (auto split: option.splits)

text \<open>
  With \<open>LOGNAME\<close> set to the empty string and \<open>USER\<close> set to \<open>bob\<close>, the program
  returns the empty string, where the first non-empty value is \<open>bob\<close>.
\<close>

theorem get_user_name_counterexample:
  "g_username w_empty_logname = []
   \<and> get_user_name w_empty_logname = Some []
   \<and> spec_get_user_name w_empty_logname = Some ''bob''
   \<and> get_user_name w_empty_logname \<noteq> spec_get_user_name w_empty_logname"
  by (simp add: w_empty_logname_def env_empty_logname_def initial_world_def get_user_name_def
      spec_get_user_name_def get_login_name_def env_names_def)

text \<open>
  Claim C9, as the program has it. When no global username is set, \<open>get_user_name\<close>
  probes \<open>LOGNAME\<close>, \<open>USER\<close>, \<open>LNAME\<close>, \<open>USERNAME\<close> in this order and returns the
  value of the first variable that is set, whether that value is empty or not; it
  returns \<open>None\<close> exactly when none of the four is set.
\<close>

theorem get_user_name_first_set:
  assumes "g_username w = []"
  shows "env_names = [''LOGNAME'', ''USER'', ''LNAME'', ''USERNAME'']
    \<and> (get_user_name w = Some v \<longleftrightarrow>
         (\<exists>i<length env_names. environ w (env_names ! i) = Some v
            \<and> (\<forall>j<i. environ w (env_names ! j) = None)))
    \<and> (get_user_name w = None \<longleftrightarrow> (\<forall>n\<in>set env_names. environ w n = None))"
proof -
  have u: "get_user_name w = get_login_name_loop (environ w) env_names"
    using assms by (simp add: get_user_name_def get_login_name_def)
  show ?thesis
    unfolding u get_login_name_loop_Some get_login_name_loop_None
    by (simp add: env_names_def)
qed

theorem get_user_name_first_set_witness:
  "g_username w_empty_logname = [] \<and> get_user_name w_empty_logname = Some []"
proof -
  have g: "g_username w_empty_logname = []"
    by (simp add: w_empty_logname_def initial_world_def)
  have "\<exists>i<length env_names. environ w_empty_logname (env_names ! i) = Some []
            \<and> (\<forall>j<i. environ w_empty_logname (env_names ! j) = None)"
    by (intro exI[of _ 0])
      (simp add: env_names_def w_empty_logname_def initial_world_def env_empty_logname_def)
  with get_user_name_first_set [OF g, of "[]"] g show ?thesis by simp
qed

section \<open>Properties of \<open>BearerAuth\<close>\<close>

text \<open>
  The constructor checks nothing: an empty string, or an \<open>access_result\<close> that is empty
  or not a string, is stored as it is.
\<close>

theorem BearerAuth_init_counterexample:
  "\<not> is_nonempty_str (token (BearerAuth_init (PStr [])))
   \<and> \<not> is_nonempty_str (token (BearerAuth_init (PDict [(''access_result'', PStr [])])))
   \<and> \<not> is_nonempty_str (token (BearerAuth_init (PDict [(''access_result'', PInt 5)])))"
  by (simp add: BearerAuth_init_def)

text \<open>
  Claim C8, as the program has it. Constructed from a raw string, the carrier holds
  exactly that string, which is non-empty exactly when the argument is. Constructed from
  a dictionary with an \<open>access_result\<close> key, it holds the value under that key, unwrapped
  one level only; that value is a non-empty string exactly when the stored one is.
\<close>

theorem BearerAuth_init_token:
  "token (BearerAuth_init (PStr s)) = PStr s
   \<and> (is_nonempty_str (token (BearerAuth_init (PStr s))) \<longleftrightarrow> s \<noteq> [])
   \<and> (map_of kvs ''access_result'' = Some v \<longrightarrow>
        token (BearerAuth_init (PDict kvs)) = v
        \<and> (is_nonempty_str (token (BearerAuth_init (PDict kvs))) \<longleftrightarrow> is_nonempty_str v))"
  by (simp add: BearerAuth_init_def)

theorem BearerAuth_init_token_witness:
  "token (BearerAuth_init (PStr ''XYZ'')) = PStr ''XYZ''
   \<and> token (BearerAuth_init (PDict [(''access_result'', PStr ''XYZ'')])) = PStr ''XYZ''
   \<and> token (BearerAuth_init
        (PDict [(''access_result'', PDict [(''access_result'', PStr ''XYZ'')])]))
        = PDict [(''access_result'', PStr ''XYZ'')]"
  using BearerAuth_init_token [of "''XYZ''" "[(''access_result'', PStr ''XYZ'')]" "PStr ''XYZ''"]
    BearerAuth_init_token [of "''XYZ''"
      "[(''access_result'', PDict [(''access_result'', PStr ''XYZ'')])]"
      "PDict [(''access_result'', PStr ''XYZ'')]"]
  by simp

section \<open>Calls made by a computation\<close>

lemma emitsI:
  assumes "\<And>w r w'. m w = (r, w') \<Longrightarrow> \<exists>evs. trace w' = trace w @ evs \<and> list_all Q evs"
  shows "emits Q m"
  using assms unfolding emits_def by blast

lemma emitsD:
  assumes "emits Q m" and "m w = (r, w')"
  shows "\<exists>evs. trace w' = trace w @ evs \<and> list_all Q evs"
  using assms unfolding emits_def by blast

lemma emits_mono:
  assumes "emits P m" and "\<And>e. P e \<Longrightarrow> Q e"
  shows "emits Q m"
proof (rule emitsI)
  fix w r w' assume "m w = (r, w')"
  from emitsD [OF assms(1) this] obtain evs where "trace w' = trace w @ evs" "list_all P evs"
    by blast
  moreover from this(2) assms(2) have "list_all Q evs" by (simp add: list_all_iff)
  ultimately show "\<exists>evs. trace w' = trace w @ evs \<and> list_all Q evs" by blast
qed

lemma emits_return: "emits Q (exc_return x)"
  by (rule emitsI) (simp add: exc_return_def)

lemma emits_raise: "emits Q (exc_raise e)"
  by (rule emitsI) (simp add: exc_raise_def)

lemma emits_lift: "emits Q (lift r)"
  by (rule emitsI) (simp add: lift_def)

lemma emits_call: "Q ev \<Longrightarrow> emits Q (call ev f)"
  by (rule emitsI) (auto simp: call_def)

lemma emits_say: "Q (Print msg) \<Longrightarrow> emits Q (say verbose msg)"
  by (rule emitsI) (auto simp: say_def split: if_splits)

lemma emits_bind:
  assumes m: "emits Q m" and f: "\<And>x. emits Q (f x)"
  shows "emits Q (exc_bind m f)"
proof (rule emitsI)
  fix w r w' assume run: "exc_bind m f w = (r, w')"
  obtain r1 w1 where m1: "m w = (r1, w1)" by (cases "m w")
  from emitsD [OF m m1] obtain evs1 where e1: "trace w1 = trace w @ evs1" "list_all Q evs1"
    by blast
  show "\<exists>evs. trace w' = trace w @ evs \<and> list_all Q evs"
  proof (cases r1)
    case (Inl e)
    with run m1 have "w' = w1" by (simp add: exc_bind_def)
    with e1 show ?thesis by blast
  next
    case (Inr x)
    with run m1 have "f x w1 = (r, w')" by (simp add: exc_bind_def)
    from emitsD [OF f this] obtain evs2 where "trace w' = trace w1 @ evs2" "list_all Q evs2"
      by blast
    with e1 have "trace w' = trace w @ (evs1 @ evs2) \<and> list_all Q (evs1 @ evs2)" by simp
    then show ?thesis by blast
  qed
qed

lemma emits_try:
  assumes m: "emits Q m" and h: "\<And>e. emits Q (h e)"
  shows "emits Q (exc_try m h)"
proof (rule emitsI)
  fix w r w' assume run: "exc_try m h w = (r, w')"
  obtain r1 w1 where m1: "m w = (r1, w1)" by (cases "m w")
  from emitsD [OF m m1] obtain evs1 where e1: "trace w1 = trace w @ evs1" "list_all Q evs1"
    by blast
  show "\<exists>evs. trace w' = trace w @ evs \<and> list_all Q evs"
  proof (cases r1)
    case (Inr x)
    with run m1 have "w' = w1" by (simp add: exc_try_def)
    with e1 show ?thesis by blast
  next
    case (Inl e)
    with run m1 have "h e w1 = (r, w')" by (simp add: exc_try_def)
    from emitsD [OF h this] obtain evs2 where "trace w' = trace w1 @ evs2" "list_all Q evs2"
      by blast
    with e1 have "trace w' = trace w @ (evs1 @ evs2) \<and> list_all Q (evs1 @ evs2)" by simp
    then show ?thesis by blast
  qed
qed

lemma emits_set_token_location: "emits Q (set_token_location location)"
  by (rule emitsI) (auto simp: set_token_location_def split: pyval.splits if_splits)

text \<open>The calls of \<open>get_auth\<close> before and after the interactive flow.\<close>

lemma emits_build:
  "emits (\<lambda>e. is_public_call e \<and> \<not> is_interactive e)
     (\<lambda>w. call (Call_build_encrypted_persistence (get_token_location w))
             (\<lambda>w'. build_encrypted_persistence L w' (get_token_location w')) w)"
  by (rule emitsI) (auto simp: call_def)

lemma emits_handler:
  "emits Q (if c then (\<lambda>w. exc_return (FilePersistence (get_token_location w)) w)
            else exc_raise e)"
  by (rule emitsI) (auto simp: exc_return_def exc_raise_def split: if_splits)

lemma emits_set_location_if:
  "emits Q (case token_location of
              PStr s \<Rightarrow> if length s > 0 then set_token_location token_location
                        else exc_return ()
            | _ \<Rightarrow> exc_return ())"
  by (cases token_location) (simp_all add: emits_set_token_location emits_return)

lemma emits_get_app_with_cache:
  "emits (\<lambda>e. is_public_call e \<and> \<not> is_interactive e)
     (get_app_with_cache L client_id authority token_location)"
  unfolding get_app_with_cache_def
  apply (rule emits_bind)
   apply (rule emits_set_location_if)
  apply (rule emits_bind)
   apply (rule emits_try)
    apply (rule emits_build)
   apply (rule emits_handler)
  apply (rule emits_call)
  apply simp
  done

lemma emits_open_and_list:
  "emits (\<lambda>e. is_public_call e \<and> \<not> is_interactive e)
     (open_and_list L clientID authority username token_location)"
  unfolding open_and_list_def
  apply (rule emits_bind)
   apply (rule emits_get_app_with_cache)
  apply (rule emits_bind)
   apply (rule emits_call)
   apply simp
  apply (rule emits_return)
  done

lemma emits_delete_cache_file:
  "emits (\<lambda>e. is_public_call e \<and> \<not> is_interactive e) (delete_cache_file L verbose)"
proof (rule emitsI)
  fix w r w' assume run: "delete_cache_file L verbose w = (r, w')"
  let ?Q = "\<lambda>e. is_public_call e \<and> \<not> is_interactive e"
  show "\<exists>evs. trace w' = trace w @ evs \<and> list_all ?Q evs"
  proof (cases "isfile L w (g_token_location w)")
    case False
    with run have "w' = w" by (simp add: delete_cache_file_def exc_return_def)
    then show ?thesis by simp
  next
    case True
    have "emits ?Q (exc_bind
             (say verbose
                [Lit ''Failed getting accounts from app with cache. Attempts to delete cache-file at '',
                 Fmt (PStr (g_token_location w))])
             (\<lambda>_. call (Call_os_remove (g_token_location w))
                      (\<lambda>w'. os_remove L w' (g_token_location w))))"
      by (rule emits_bind) (simp_all add: emits_say emits_call)
    moreover from True run have "exc_bind
             (say verbose
                [Lit ''Failed getting accounts from app with cache. Attempts to delete cache-file at '',
                 Fmt (PStr (g_token_location w))])
             (\<lambda>_. call (Call_os_remove (g_token_location w))
                      (\<lambda>w'. os_remove L w' (g_token_location w))) w = (r, w')"
      by (simp add: delete_cache_file_def)
    ultimately show ?thesis by (rule emitsD)
  qed
qed

lemma emits_open_cache_and_accounts:
  "emits (\<lambda>e. is_public_call e \<and> \<not> is_interactive e)
     (open_cache_and_accounts L clientID authority username token_location verbose)"
proof (rule emitsI)
  fix w r w'
  assume run: "open_cache_and_accounts L clientID authority username token_location verbose w
    = (r, w')"
  let ?Q = "\<lambda>e. is_public_call e \<and> \<not> is_interactive e"
  let ?tl = "default_token_location token_location w"
  have "emits ?Q (exc_try (open_and_list L clientID authority username ?tl)
        (\<lambda>e. exc_bind (delete_cache_file L verbose)
               (\<lambda>_. open_and_list L clientID authority username ?tl)))"
    apply (rule emits_try)
     apply (rule emits_open_and_list)
    apply (rule emits_bind)
     apply (rule emits_delete_cache_file)
    apply (rule emits_open_and_list)
    done
  moreover from run have "exc_try (open_and_list L clientID authority username ?tl)
        (\<lambda>e. exc_bind (delete_cache_file L verbose)
               (\<lambda>_. open_and_list L clientID authority username ?tl)) w = (r, w')"
    by (simp add: open_cache_and_accounts_def Let_def)
  ultimately show "\<exists>evs. trace w' = trace w @ evs \<and> list_all ?Q evs" by (rule emitsD)
qed

lemma emits_silent_step:
  "emits (\<lambda>e. is_public_call e \<and> \<not> is_interactive e)
     (silent_step L a scopes username accounts verbose)"
proof (cases accounts)
  case Nil
  then show ?thesis by (simp add: silent_step_def emits_return)
next
  case (Cons account rest)
  have "emits (\<lambda>e. is_public_call e \<and> \<not> is_interactive e)
     (exc_bind (say verbose [Lit ''Found account in token cache: '', Fmt (PStr username)])
            (\<lambda>_. exc_bind
               (say verbose
                  [Lit ''Attempting to obtain a new Access Token using the Refresh Token''])
               (\<lambda>_. call (Call_acquire_token_silent a scopes account)
                        (\<lambda>w. acquire_token_silent L w a scopes account))))"
    apply (rule emits_bind)
     apply (rule emits_say)
     apply simp
    apply (rule emits_bind)
     apply (rule emits_say)
     apply simp
    apply (rule emits_call)
    apply simp
    done
  with Cons show ?thesis by (simp add: silent_step_def)
qed

lemma emits_finish:
  "emits (\<lambda>e. is_public_call e \<and> \<not> is_interactive e) (finish result verbose)"
proof (cases "access_token_of result")
  case None
  have "emits (\<lambda>e. is_public_call e \<and> \<not> is_interactive e)
     (exc_bind (say verbose [Lit (''Failed, returned:'' @ [CHR 0x0A]), Fmt result])
            (\<lambda>_. exc_raise (Exn Exception [Lit ''Failed authenticating''])))"
    apply (rule emits_bind)
     apply (rule emits_say)
     apply simp
    apply (rule emits_raise)
    done
  with None show ?thesis by (simp add: finish_def)
next
  case (Some v)
  have "emits (\<lambda>e. is_public_call e \<and> \<not> is_interactive e)
     (exc_bind (say verbose [Lit ''Success'']) (\<lambda>_. exc_return (BearerAuth_init v)))"
    apply (rule emits_bind)
     apply (rule emits_say)
     apply simp
    apply (rule emits_return)
    done
  with Some show ?thesis by (simp add: finish_def)
qed

lemma interactive_calls_unchanged:
  assumes "emits (\<lambda>e. is_public_call e \<and> \<not> is_interactive e) m" and "m w = (r, w')"
  shows "interactive_calls w' = interactive_calls w"
proof -
  from emitsD [OF assms] obtain evs where
    "trace w' = trace w @ evs" "list_all (\<lambda>e. is_public_call e \<and> \<not> is_interactive e) evs"
    by blast
  then show ?thesis by (simp add: interactive_calls_def list_all_iff)
qed


lemma emits_interactive_step:
  "emits is_public_call (interactive_step L a scopes tenantID result verbose)"
proof (cases "needs_interactive result")
  case (Inl e)
  then show ?thesis by (simp add: interactive_step_def emits_raise)
next
  case (Inr b)
  show ?thesis
  proof (cases b)
    case False
    with Inr show ?thesis by (simp add: interactive_step_def emits_return)
  next
    case True
    have "emits is_public_call
       (exc_bind
            (say verbose
               [Lit ''Interactive Authentication required to obtain a new Access Token.''])
            (\<lambda>_. call (Call_acquire_token_interactive a scopes tenantID)
                     (\<lambda>w. acquire_token_interactive L w a scopes tenantID)))"
      apply (rule emits_bind)
       apply (rule emits_say)
       apply simp
      apply (rule emits_call)
      apply simp
      done
    with Inr True show ?thesis by (simp add: interactive_step_def)
  qed
qed

lemma emits_get_auth:
  "emits is_public_call
     (get_auth L tenantID clientID scopes username token_location authority verbose)"
proof -
  have step: "emits is_public_call
      (case x of (a, accounts) \<Rightarrow>
         exc_bind (silent_step L a scopes username accounts verbose)
          (\<lambda>result. interactive_step L a scopes tenantID result verbose))" for x
  proof (cases x)
    case (Pair a accounts)
    have "emits is_public_call (exc_bind (silent_step L a scopes username accounts verbose)
          (\<lambda>result. interactive_step L a scopes tenantID result verbose))"
      apply (rule emits_bind)
       apply (rule emits_mono [OF emits_silent_step])
       apply simp
      apply (rule emits_interactive_step)
      done
    with Pair show ?thesis by simp
  qed
  show ?thesis
    unfolding get_auth_def get_auth_result_def
    apply (rule emits_bind)
     apply (rule emits_bind)
      apply (rule emits_mono [OF emits_open_cache_and_accounts])
      apply simp
     apply (rule step)
    apply (rule emits_mono [OF emits_finish])
    apply simp
    done
qed

section \<open>The steps of \<open>get_auth\<close>\<close>

lemma get_auth_after_silent:
  assumes "open_cache_and_accounts L clientID (resolve_authority tenantID authority) username
             token_location verbose w = (Inr (a, accounts), w1)"
    and "silent_step L a scopes username accounts verbose w1 = (Inr result, w2)"
  shows "get_auth L tenantID clientID scopes username token_location authority verbose w
     = exc_bind (interactive_step L a scopes tenantID result verbose)
         (\<lambda>r. finish r verbose) w2"
  using assms by (simp add: get_auth_def get_auth_result_def exc_bind_def)

lemma get_auth_after_result:
  assumes "get_auth_result L tenantID clientID scopes username token_location authority verbose w
             = (Inr result, w')"
  shows "get_auth L tenantID clientID scopes username token_location authority verbose w
     = finish result verbose w'"
  using assms by (simp add: get_auth_def exc_bind_def)

lemma bind_finish_interactive_calls:
  assumes "m w = (r, w3)"
  shows "interactive_calls (snd (exc_bind m (\<lambda>r. finish r verbose) w)) = interactive_calls w3"
proof (cases r)
  case (Inl e)
  with assms show ?thesis by (simp add: exc_bind_def)
next
  case (Inr x)
  obtain r' w' where f: "finish x verbose w3 = (r', w')" by (cases "finish x verbose w3")
  from interactive_calls_unchanged [OF emits_finish f]
  have "interactive_calls w' = interactive_calls w3" .
  with assms Inr f show ?thesis by (simp add: exc_bind_def)
qed

lemma interactive_step_True:
  assumes "needs_interactive result = Inr True"
  shows "\<exists>r w3. interactive_step L a scopes tenantID result verbose w2 = (r, w3)
     \<and> interactive_calls w3
         = interactive_calls w2 @ [Call_acquire_token_interactive a scopes tenantID]"
  using assms
  by (simp add: interactive_step_def exc_bind_def say_def call_def interactive_calls_def)

lemma interactive_step_not_True:
  assumes "needs_interactive result \<noteq> Inr True"
  shows "\<exists>r. interactive_step L a scopes tenantID result verbose w2 = (r, w2)"
  using assms
  by (cases "needs_interactive result")
    (auto simp: interactive_step_def exc_raise_def exc_return_def)

lemma get_auth_interactive_calls:
  assumes opened: "open_cache_and_accounts L clientID (resolve_authority tenantID authority)
             username token_location verbose w = (Inr (a, accounts), w1)"
    and silent: "silent_step L a scopes username accounts verbose w1 = (Inr result, w2)"
  shows "interactive_calls
           (snd (get_auth L tenantID clientID scopes username token_location authority verbose w))
     = interactive_calls w @
         (if needs_interactive result = Inr True
          then [Call_acquire_token_interactive a scopes tenantID] else [])"
proof -
  have c1: "interactive_calls w1 = interactive_calls w"
    by (rule interactive_calls_unchanged [OF emits_open_cache_and_accounts opened])
  have c2: "interactive_calls w2 = interactive_calls w1"
    by (rule interactive_calls_unchanged [OF emits_silent_step silent])
  note unfold = get_auth_after_silent [OF opened silent]
  show ?thesis
  proof (cases "needs_interactive result = Inr True")
    case True
    from interactive_step_True [OF True, of L a scopes tenantID verbose w2]
    obtain r w3 where
      st: "interactive_step L a scopes tenantID result verbose w2 = (r, w3)"
      and c3: "interactive_calls w3
         = interactive_calls w2 @ [Call_acquire_token_interactive a scopes tenantID]"
      by blast
    from bind_finish_interactive_calls
           [of "interactive_step L a scopes tenantID result verbose" w2 r w3 verbose, OF st]
         unfold c1 c2 c3 True
    show ?thesis by simp
  next
    case False
    from interactive_step_not_True [OF False, of L a scopes tenantID verbose w2]
    obtain r where st: "interactive_step L a scopes tenantID result verbose w2 = (r, w2)"
      by blast
    from bind_finish_interactive_calls
           [of "interactive_step L a scopes tenantID result verbose" w2 r w2 verbose, OF st]
         unfold c1 c2 False
    show ?thesis by simp
  qed
qed

lemma needs_interactive_iff:
  "needs_interactive result = Inr True \<longleftrightarrow> no_result_or_50173 result"
proof (cases result)
  case (PDict kvs)
  show ?thesis
  proof (cases "map_of kvs ''error_codes''")
    case None
    with PDict show ?thesis by (simp add: needs_interactive_def no_result_or_50173_def)
  next
    case (Some codes)
    with PDict show ?thesis
      by (cases codes) (simp_all add: needs_interactive_def no_result_or_50173_def)
  qed
qed (simp_all add: needs_interactive_def no_result_or_50173_def)

lemma silent_succeeded_no_interactive:
  "silent_succeeded result \<Longrightarrow> \<not> no_result_or_50173 result"
  by (cases result) (simp_all add: silent_succeeded_def no_result_or_50173_def)

lemma finish_cases:
  "(access_token_of result = Some v \<longrightarrow>
      fst (finish result verbose w) = Inr (BearerAuth_init v))
   \<and> (access_token_of result = None \<longrightarrow>
      fst (finish result verbose w) = Inl AuthenticationError)"
  by (auto simp: finish_def exc_bind_def say_def exc_return_def exc_raise_def
      AuthenticationError_def)

lemma access_token_of_Some:
  "access_token_of result = Some v \<longleftrightarrow>
     (\<exists>kvs. result = PDict kvs \<and> map_of kvs ''access_token'' = Some v \<and> truthy v)"
proof (cases result)
  case (PDict kvs)
  have "kvs \<noteq> []" if "map_of kvs ''access_token'' = Some v" using that by auto
  with PDict show ?thesis
    by (auto simp: access_token_of_def split: option.splits)
qed (simp_all add: access_token_of_def)


section \<open>Evaluation on concrete collaborators\<close>

lemmas run_defs =
  get_auth_def get_auth_result_def open_cache_and_accounts_def open_and_list_def
  get_app_with_cache_def delete_cache_file_def silent_step_def interactive_step_def finish_def
  needs_interactive_def access_token_of_def BearerAuth_init_def resolve_authority_def
  default_token_location_def get_token_location_def set_token_location_def
  get_tenant_authority_def exc_bind_def exc_return_def exc_raise_def exc_try_def call_def
  say_def lift_def w_init_def initial_world_def interactive_calls_def AuthenticationError_def
  app_TC_def an_account_def sublist_dot_iff Let_def

lemmas lib_defs =
  lib_ok_def lib_silent_ok_def lib_silent_50076_def lib_silent_50173_def
  lib_corrupt_cache_def lib_accounts_fail_def lib_remove_fails_def lib_invalid_client_def

section \<open>Properties of \<open>get_auth\<close>\<close>

text \<open>
  Claim C1. In a call of \<open>get_auth\<close> that has opened the cache and passed the silent
  step, the interactive flow is called once, with the tenant id as domain hint, if the
  silent step gave no result or an error response whose list of error codes contains
  50173, and is not called otherwise. In particular, after a silent acquisition that
  succeeded (which needs a cached account) the interactive flow is not called.
\<close>

theorem get_auth_interactive_iff:
  assumes "open_cache_and_accounts L clientID (resolve_authority tenantID authority) username
             token_location verbose w = (Inr (a, accounts), w1)"
    and "silent_step L a scopes username accounts verbose w1 = (Inr result, w2)"
  shows "interactive_calls
           (snd (get_auth L tenantID clientID scopes username token_location authority verbose w))
       = interactive_calls w @
           (if no_result_or_50173 result
            then [Call_acquire_token_interactive a scopes tenantID] else [])
     \<and> (silent_succeeded result \<longrightarrow>
          accounts \<noteq> []
          \<and> interactive_calls
            (snd (get_auth L tenantID clientID scopes username token_location authority verbose w))
            = interactive_calls w)"
proof -
  have main: "interactive_calls
           (snd (get_auth L tenantID clientID scopes username token_location authority verbose w))
       = interactive_calls w @
           (if no_result_or_50173 result
            then [Call_acquire_token_interactive a scopes tenantID] else [])"
    using get_auth_interactive_calls [OF assms] by (simp add: needs_interactive_iff)
  have "accounts \<noteq> []" if "silent_succeeded result"
  proof
    assume "accounts = []"
    with assms(2) have "result = PNone" by (simp add: silent_step_def exc_return_def)
    with that show False by (simp add: silent_succeeded_def)
  qed
  with main silent_succeeded_no_interactive [of result] show ?thesis by simp
qed

theorem get_auth_interactive_iff_witness:
  "interactive_calls
     (snd (get_auth lib_silent_ok ''T'' ''C'' [''S''] [] (PStr []) (PStr []) False w_init)) = []
   \<and> interactive_calls
     (snd (get_auth lib_ok ''T'' ''C'' [''S''] [] (PStr []) (PStr []) False w_init))
       = [Call_acquire_token_interactive app_TC [''S''] ''T'']"
proof -
  let ?w1 = "snd (open_cache_and_accounts lib_silent_ok ''C'' (resolve_authority ''T'' (PStr []))
                    [] (PStr []) False w_init)"
  let ?w2 = "snd (silent_step lib_silent_ok app_TC [''S''] [] [an_account] False ?w1)"
  have o1: "open_cache_and_accounts lib_silent_ok ''C'' (resolve_authority ''T'' (PStr []))
              [] (PStr []) False w_init = (Inr (app_TC, [an_account]), ?w1)"
    by (simp add: run_defs lib_defs)
  have s1: "silent_step lib_silent_ok app_TC [''S''] [] [an_account] False ?w1
              = (Inr (PDict [(''access_token'', PStr ''SIL'')]), ?w2)"
    by (simp add: run_defs lib_defs)
  let ?v1 = "snd (open_cache_and_accounts lib_ok ''C'' (resolve_authority ''T'' (PStr []))
                    [] (PStr []) False w_init)"
  let ?v2 = "snd (silent_step lib_ok app_TC [''S''] [] [] False ?v1)"
  have o2: "open_cache_and_accounts lib_ok ''C'' (resolve_authority ''T'' (PStr []))
              [] (PStr []) False w_init = (Inr (app_TC, []), ?v1)"
    by (simp add: run_defs lib_defs)
  have s2: "silent_step lib_ok app_TC [''S''] [] [] False ?v1 = (Inr PNone, ?v2)"
    by (simp add: run_defs lib_defs)
  have i0: "interactive_calls w_init = []"
    by (simp add: run_defs)
  from get_auth_interactive_iff [OF o1 s1] get_auth_interactive_iff [OF o2 s2] i0
  show ?thesis by (simp add: no_result_or_50173_def)
qed

text \<open>
  An error response that carries only the error code 50076: \<open>get_auth\<close> fails without
  calling the interactive flow.
\<close>

theorem get_auth_other_error_code_counterexample:
  "acquire_token_silent lib_silent_50076 w_init app_TC [''S''] an_account
     = Inr (PDict [(''error'', PStr ''interaction_required''),
                   (''error_codes'', PList [PInt 50076])])
   \<and> fst (get_auth lib_silent_50076 ''T'' ''C'' [''S''] [] (PStr []) (PStr []) False w_init)
     = Inl AuthenticationError
   \<and> interactive_calls
       (snd (get_auth lib_silent_50076 ''T'' ''C'' [''S''] [] (PStr []) (PStr []) False w_init))
     = []"
  by (simp add: run_defs lib_defs)

text \<open>
  Claim C2, as the program has it. The interactive flow is called exactly once when the
  silent step gave no result, or an error response whose error codes contain 50173. For
  an error response with other error codes only it is not called, and \<open>get_auth\<close> raises
  the final failure if the response has no access token.
\<close>

theorem get_auth_error_response:
  assumes "open_cache_and_accounts L clientID (resolve_authority tenantID authority) username
             token_location verbose w = (Inr (a, accounts), w1)"
    and "silent_step L a scopes username accounts verbose w1 = (Inr result, w2)"
  shows "(result = PNone \<longrightarrow>
           interactive_calls
             (snd (get_auth L tenantID clientID scopes username token_location authority verbose w))
           = interactive_calls w @ [Call_acquire_token_interactive a scopes tenantID])
     \<and> (result = PDict kvs \<and> map_of kvs ''error_codes'' = Some (PList codes)
          \<and> PInt 50173 \<in> set codes \<longrightarrow>
           interactive_calls
             (snd (get_auth L tenantID clientID scopes username token_location authority verbose w))
           = interactive_calls w @ [Call_acquire_token_interactive a scopes tenantID])
     \<and> (result = PDict kvs \<and> map_of kvs ''error_codes'' = Some (PList codes)
          \<and> PInt 50173 \<notin> set codes \<longrightarrow>
           interactive_calls
             (snd (get_auth L tenantID clientID scopes username token_location authority verbose w))
           = interactive_calls w
           \<and> (map_of kvs ''access_token'' = None \<longrightarrow>
                fst (get_auth L tenantID clientID scopes username token_location authority
                       verbose w) = Inl AuthenticationError))"
proof -
  note calls = get_auth_interactive_calls [OF assms]
  have none: "needs_interactive PNone = Inr True"
    by (simp add: needs_interactive_def)
  have yes: "needs_interactive (PDict kvs) = Inr True"
    if "map_of kvs ''error_codes'' = Some (PList codes)" "PInt 50173 \<in> set codes"
    using that by (simp add: needs_interactive_def)
  have no: "needs_interactive (PDict kvs) = Inr False"
    if "map_of kvs ''error_codes'' = Some (PList codes)" "PInt 50173 \<notin> set codes"
    using that by (simp add: needs_interactive_def)
  have fin: "get_auth L tenantID clientID scopes username token_location authority verbose w
             = finish result verbose w2"
    if "needs_interactive result = Inr False"
    using get_auth_after_silent [OF assms] that
    by (simp add: interactive_step_def exc_bind_def exc_return_def)
  have fail: "fst (finish (PDict kvs) verbose w2) = Inl AuthenticationError"
    if "map_of kvs ''access_token'' = None"
    using that finish_cases [of "PDict kvs" _ verbose w2] by (simp add: access_token_of_def)
  show ?thesis
    using calls none yes no fin fail by auto
qed

theorem get_auth_error_response_witness:
  "interactive_calls
     (snd (get_auth lib_silent_50173 ''T'' ''C'' [''S''] [] (PStr []) (PStr []) False w_init))
     = [Call_acquire_token_interactive app_TC [''S''] ''T'']
   \<and> interactive_calls
     (snd (get_auth lib_silent_50076 ''T'' ''C'' [''S''] [] (PStr []) (PStr []) False w_init))
     = []
   \<and> fst (get_auth lib_silent_50076 ''T'' ''C'' [''S''] [] (PStr []) (PStr []) False w_init)
     = Inl AuthenticationError
   \<and> interactive_calls
     (snd (get_auth lib_ok ''T'' ''C'' [''S''] [] (PStr []) (PStr []) False w_init))
     = [Call_acquire_token_interactive app_TC [''S''] ''T'']"
proof -
  let ?w1 = "snd (open_cache_and_accounts lib_silent_50173 ''C''
                    (resolve_authority ''T'' (PStr [])) [] (PStr []) False w_init)"
  let ?w2 = "snd (silent_step lib_silent_50173 app_TC [''S''] [] [an_account] False ?w1)"
  let ?r1 = "[(''error'', PStr ''invalid_grant''), (''error_codes'', PList [PInt 50173])]"
  have o1: "open_cache_and_accounts lib_silent_50173 ''C'' (resolve_authority ''T'' (PStr []))
              [] (PStr []) False w_init = (Inr (app_TC, [an_account]), ?w1)"
    by (simp add: run_defs lib_defs)
  have s1: "silent_step lib_silent_50173 app_TC [''S''] [] [an_account] False ?w1
              = (Inr (PDict ?r1), ?w2)"
    by (simp add: run_defs lib_defs)
  let ?u1 = "snd (open_cache_and_accounts lib_silent_50076 ''C''
                    (resolve_authority ''T'' (PStr [])) [] (PStr []) False w_init)"
  let ?u2 = "snd (silent_step lib_silent_50076 app_TC [''S''] [] [an_account] False ?u1)"
  let ?r2 = "[(''error'', PStr ''interaction_required''), (''error_codes'', PList [PInt 50076])]"
  have o2: "open_cache_and_accounts lib_silent_50076 ''C'' (resolve_authority ''T'' (PStr []))
              [] (PStr []) False w_init = (Inr (app_TC, [an_account]), ?u1)"
    by (simp add: run_defs lib_defs)
  have s2: "silent_step lib_silent_50076 app_TC [''S''] [] [an_account] False ?u1
              = (Inr (PDict ?r2), ?u2)"
    by (simp add: run_defs lib_defs)
  let ?v1 = "snd (open_cache_and_accounts lib_ok ''C'' (resolve_authority ''T'' (PStr []))
                    [] (PStr []) False w_init)"
  let ?v2 = "snd (silent_step lib_ok app_TC [''S''] [] [] False ?v1)"
  have o3: "open_cache_and_accounts lib_ok ''C'' (resolve_authority ''T'' (PStr []))
              [] (PStr []) False w_init = (Inr (app_TC, []), ?v1)"
    by (simp add: run_defs lib_defs)
  have s3: "silent_step lib_ok app_TC [''S''] [] [] False ?v1 = (Inr PNone, ?v2)"
    by (simp add: run_defs lib_defs)
  have i0: "interactive_calls w_init = []"
    by (simp add: run_defs)
  from get_auth_error_response [OF o1 s1, of ?r1 "[PInt 50173]"]
    get_auth_error_response [OF o2 s2, of ?r2 "[PInt 50076]"]
    get_auth_error_response [OF o3 s3, of ?r2 "[PInt 50076]"] i0
  show ?thesis by simp
qed

text \<open>
  Claim C4. \<open>get_auth\<close> returns a carrier exactly when the final acquisition result is a
  dictionary with a non-empty \<open>access_token\<close> field; the carrier is built from that
  field, and holds exactly that string when the field is a string. For any other final
  result it raises the failure \<open>Failed authenticating\<close>.
\<close>

theorem get_auth_returns_iff:
  "((\<exists>b. fst (get_auth L tenantID clientID scopes username token_location authority verbose w)
            = Inr b)
      \<longleftrightarrow> (\<exists>kvs v. fst (get_auth_result L tenantID clientID scopes username token_location
                            authority verbose w) = Inr (PDict kvs)
                 \<and> map_of kvs ''access_token'' = Some v \<and> truthy v))
   \<and> (fst (get_auth_result L tenantID clientID scopes username token_location authority
              verbose w) = Inr (PDict kvs)
        \<and> map_of kvs ''access_token'' = Some v \<and> truthy v \<longrightarrow>
        fst (get_auth L tenantID clientID scopes username token_location authority verbose w)
          = Inr (BearerAuth_init v))
   \<and> (fst (get_auth_result L tenantID clientID scopes username token_location authority
              verbose w) = Inr (PDict kvs)
        \<and> map_of kvs ''access_token'' = Some (PStr s) \<and> s \<noteq> [] \<longrightarrow>
        fst (get_auth L tenantID clientID scopes username token_location authority verbose w)
          = Inr \<lparr>token = PStr s\<rparr>)
   \<and> (fst (get_auth_result L tenantID clientID scopes username token_location authority
              verbose w) = Inr result
        \<and> \<not> (\<exists>kvs v. result = PDict kvs \<and> map_of kvs ''access_token'' = Some v \<and> truthy v)
        \<longrightarrow>
        fst (get_auth L tenantID clientID scopes username token_location authority verbose w)
          = Inl AuthenticationError)"
proof -
  let ?G = "get_auth L tenantID clientID scopes username token_location authority verbose w"
  let ?R = "get_auth_result L tenantID clientID scopes username token_location authority
              verbose w"
  obtain r w' where R: "?R = (r, w')" by (cases ?R)
  show ?thesis
  proof (cases r)
    case (Inl e)
    with R have "?G = (Inl e, w')" by (simp add: get_auth_def exc_bind_def)
    with R Inl show ?thesis by simp
  next
    case (Inr res)
    with R have G: "?G = finish res verbose w'" by (rule_tac get_auth_after_result) simp
    have ok: "fst ?G = Inr (BearerAuth_init x)" if "access_token_of res = Some x" for x
      using that finish_cases [of res x verbose w'] G by simp
    have bad: "fst ?G = Inl AuthenticationError" if "access_token_of res = None"
      using that finish_cases [of res _ verbose w'] G by simp
    have str: "BearerAuth_init (PStr s) = \<lparr>token = PStr s\<rparr>"
      by (simp add: BearerAuth_init_def)
    have none: "access_token_of res = None"
      if "\<not> (\<exists>kvs v. res = PDict kvs \<and> map_of kvs ''access_token'' = Some v \<and> truthy v)"
    proof (cases "access_token_of res")
      case (Some x)
      with that access_token_of_Some [of res x] show ?thesis by blast
    qed simp
    have some: "access_token_of res = Some x"
      if "res = PDict k" "map_of k ''access_token'' = Some x" "truthy x" for k x
      using that by (simp add: access_token_of_Some)
    have c1: "(\<exists>b. fst ?G = Inr b)
      \<longleftrightarrow> (\<exists>kvs v. fst ?R = Inr (PDict kvs) \<and> map_of kvs ''access_token'' = Some v \<and> truthy v)"
    proof
      assume "\<exists>b. fst ?G = Inr b"
      then obtain b where b: "fst ?G = Inr b" by blast
      have "access_token_of res \<noteq> None"
      proof
        assume "access_token_of res = None"
        from bad [OF this] b show False by simp
      qed
      then obtain x where "access_token_of res = Some x" by auto
      then show "\<exists>kvs v. fst ?R = Inr (PDict kvs) \<and> map_of kvs ''access_token'' = Some v
          \<and> truthy v"
        using R Inr by (auto simp: access_token_of_Some)
    next
      assume "\<exists>kvs v. fst ?R = Inr (PDict kvs) \<and> map_of kvs ''access_token'' = Some v
          \<and> truthy v"
      then obtain k x where "res = PDict k" "map_of k ''access_token'' = Some x" "truthy x"
        using R Inr by auto
      then show "\<exists>b. fst ?G = Inr b" using ok some by blast
    qed
    have c2: "fst ?R = Inr (PDict kvs) \<and> map_of kvs ''access_token'' = Some v \<and> truthy v
        \<longrightarrow> fst ?G = Inr (BearerAuth_init v)"
      using R Inr ok some by auto
    have c3: "fst ?R = Inr (PDict kvs) \<and> map_of kvs ''access_token'' = Some (PStr s) \<and> s \<noteq> []
        \<longrightarrow> fst ?G = Inr \<lparr>token = PStr s\<rparr>"
      using R Inr ok [of "PStr s"] some [of kvs "PStr s"] str by auto
    have c4: "fst ?R = Inr result
        \<and> \<not> (\<exists>kvs v. result = PDict kvs \<and> map_of kvs ''access_token'' = Some v \<and> truthy v)
        \<longrightarrow> fst ?G = Inl AuthenticationError"
      using R Inr bad none by auto
    from c1 c2 c3 c4 show ?thesis by blast
  qed
qed

theorem get_auth_returns_iff_witness:
  "fst (get_auth lib_ok ''T'' ''C'' [''S''] [] (PStr []) (PStr []) False w_init)
     = Inr \<lparr>token = PStr ''XYZ''\<rparr>
   \<and> fst (get_auth lib_silent_50076 ''T'' ''C'' [''S''] [] (PStr []) (PStr []) False w_init)
     = Inl AuthenticationError"
proof -
  have r1: "fst (get_auth_result lib_ok ''T'' ''C'' [''S''] [] (PStr []) (PStr []) False w_init)
     = Inr (PDict [(''access_token'', PStr ''XYZ'')])"
    by (simp add: run_defs lib_defs)
  have r2: "fst (get_auth_result lib_silent_50076 ''T'' ''C'' [''S''] [] (PStr []) (PStr [])
                   False w_init)
     = Inr (PDict [(''error'', PStr ''interaction_required''),
                   (''error_codes'', PList [PInt 50076])])"
    by (simp add: run_defs lib_defs)
  from get_auth_returns_iff [of lib_ok "''T''" "''C''" "[''S'']" "[]" "PStr []" "PStr []" False
      w_init "[(''access_token'', PStr ''XYZ'')]" "PStr ''XYZ''" "''XYZ''" PNone] r1
  have a: "fst (get_auth lib_ok ''T'' ''C'' [''S''] [] (PStr []) (PStr []) False w_init)
     = Inr \<lparr>token = PStr ''XYZ''\<rparr>" by (simp add: BearerAuth_init_def)
  from get_auth_returns_iff [of lib_silent_50076 "''T''" "''C''" "[''S'']" "[]" "PStr []"
      "PStr []" False w_init "[]" PNone "[]"
      "PDict [(''error'', PStr ''interaction_required''), (''error_codes'', PList [PInt 50076])]"]
    r2
  have b: "fst (get_auth lib_silent_50076 ''T'' ''C'' [''S''] [] (PStr []) (PStr []) False w_init)
     = Inl AuthenticationError" by simp
  from a b show ?thesis by simp
qed

text \<open>
  When the cache file cannot be removed, the exception of \<open>os.remove\<close> leaves
  \<open>get_auth\<close> and the accounts are listed once only. When the second attempt fails, its
  own exception leaves \<open>get_auth\<close>, not the failure \<open>Failed authenticating\<close>.
\<close>

theorem get_auth_cache_recovery_counterexample:
  "fst (open_and_list lib_remove_fails ''C'' (resolve_authority ''T'' (PStr [])) []
          (default_token_location (PStr []) w_init) w_init)
     = Inl (Exn (OtherError ''PersistenceDecryptionError'') [])
   \<and> fst (get_auth lib_remove_fails ''T'' ''C'' [''S''] [] (PStr []) (PStr []) False w_init)
     = Inl (Exn OSError [Lit ''Permission denied''])
   \<and> filter is_get_accounts
       (trace (snd (get_auth lib_remove_fails ''T'' ''C'' [''S''] [] (PStr []) (PStr []) False
                      w_init)))
     = [Call_get_accounts app_TC []]
   \<and> fst (get_auth lib_accounts_fail ''T'' ''C'' [''S''] [] (PStr []) (PStr []) False w_init)
     = Inl (Exn (OtherError ''PersistenceDecryptionError'') [])
   \<and> fst (get_auth lib_accounts_fail ''T'' ''C'' [''S''] [] (PStr []) (PStr []) False w_init)
     \<noteq> Inl AuthenticationError"
  by (simp add: run_defs lib_defs)

text \<open>
  Claim C3, as the program has it. If the first attempt to open the cache and list the
  accounts raises, the file at the global token location is removed if it is a file. If
  that step does not raise, the \<open>try\<close> statement ends as one further attempt, started in
  the state after the removal, ends: there is no third attempt, and an exception of the
  second attempt leaves \<open>get_auth\<close> unchanged.
\<close>

theorem get_auth_cache_recovery:
  assumes first: "open_and_list L clientID (resolve_authority tenantID authority) username
                    (default_token_location token_location w) w = (Inl e, w1)"
    and deleted: "delete_cache_file L verbose w1 = (Inr (), w2)"
  shows "open_cache_and_accounts L clientID (resolve_authority tenantID authority) username
           token_location verbose w
         = open_and_list L clientID (resolve_authority tenantID authority) username
             (default_token_location token_location w) w2
     \<and> (open_and_list L clientID (resolve_authority tenantID authority) username
           (default_token_location token_location w) w2 = (Inl e2, w3) \<longrightarrow>
         get_auth L tenantID clientID scopes username token_location authority verbose w
           = (Inl e2, w3))
     \<and> (isfile L w1 (g_token_location w1) \<longrightarrow>
         trace w2 = trace w1
           @ (if verbose
              then [Print [Lit ''Failed getting accounts from app with cache. Attempts to delete cache-file at '',
                           Fmt (PStr (g_token_location w1))]]
              else [])
           @ [Call_os_remove (g_token_location w1)])
     \<and> (\<not> isfile L w1 (g_token_location w1) \<longrightarrow> w2 = w1)"
proof -
  have second: "open_cache_and_accounts L clientID (resolve_authority tenantID authority) username
           token_location verbose w
         = open_and_list L clientID (resolve_authority tenantID authority) username
             (default_token_location token_location w) w2"
    using first deleted
    by (simp add: open_cache_and_accounts_def Let_def exc_try_def exc_bind_def)
  have fails: "get_auth L tenantID clientID scopes username token_location authority verbose w
           = (Inl e2, w3)"
    if "open_and_list L clientID (resolve_authority tenantID authority) username
           (default_token_location token_location w) w2 = (Inl e2, w3)"
    using that second by (simp add: get_auth_def get_auth_result_def exc_bind_def)
  have removed: "trace w2 = trace w1
           @ (if verbose
              then [Print [Lit ''Failed getting accounts from app with cache. Attempts to delete cache-file at '',
                           Fmt (PStr (g_token_location w1))]]
              else [])
           @ [Call_os_remove (g_token_location w1)]"
    if "isfile L w1 (g_token_location w1)"
    using that deleted
    by (auto simp: delete_cache_file_def exc_bind_def say_def call_def split: if_splits)
  have kept: "w2 = w1" if "\<not> isfile L w1 (g_token_location w1)"
    using that deleted by (simp add: delete_cache_file_def exc_return_def)
  from second fails removed kept show ?thesis by blast
qed

theorem get_auth_cache_recovery_witness:
  "fst (get_auth lib_accounts_fail ''T'' ''C'' [''S''] [] (PStr []) (PStr []) False w_init)
     = Inl (Exn (OtherError ''PersistenceDecryptionError'') [])
   \<and> fst (open_cache_and_accounts lib_corrupt_cache ''C'' (resolve_authority ''T'' (PStr []))
            [] (PStr []) False w_init)
     = Inr (app_TC, [])
   \<and> filter is_get_accounts
       (trace (snd (open_cache_and_accounts lib_corrupt_cache ''C''
                      (resolve_authority ''T'' (PStr [])) [] (PStr []) False w_init)))
     = [Call_get_accounts app_TC [], Call_get_accounts app_TC []]"
proof -
  let ?e = "Exn (OtherError ''PersistenceDecryptionError'') []"
  let ?tl = "default_token_location (PStr []) w_init"
  let ?au = "resolve_authority ''T'' (PStr [])"
  let ?w1 = "snd (open_and_list lib_accounts_fail ''C'' ?au [] ?tl w_init)"
  have f1: "open_and_list lib_accounts_fail ''C'' ?au [] ?tl w_init = (Inl ?e, ?w1)"
    by (simp add: run_defs lib_defs)
  have d1: "delete_cache_file lib_accounts_fail False ?w1 = (Inr (), ?w1)"
    by (simp add: run_defs lib_defs)
  let ?w3 = "snd (open_and_list lib_accounts_fail ''C'' ?au [] ?tl ?w1)"
  have g1: "open_and_list lib_accounts_fail ''C'' ?au [] ?tl ?w1 = (Inl ?e, ?w3)"
    by (simp add: run_defs lib_defs)
  from get_auth_cache_recovery [OF f1 d1, of ?e ?w3 "[''S'']"] g1
  have a: "fst (get_auth lib_accounts_fail ''T'' ''C'' [''S''] [] (PStr []) (PStr []) False w_init)
     = Inl ?e" by simp
  let ?u1 = "snd (open_and_list lib_corrupt_cache ''C'' ?au [] ?tl w_init)"
  have f2: "open_and_list lib_corrupt_cache ''C'' ?au [] ?tl w_init = (Inl ?e, ?u1)"
    by (simp add: run_defs lib_defs)
  let ?u2 = "snd (delete_cache_file lib_corrupt_cache False ?u1)"
  have d2: "delete_cache_file lib_corrupt_cache False ?u1 = (Inr (), ?u2)"
    by (simp add: run_defs lib_defs)
  have g2: "fst (open_and_list lib_corrupt_cache ''C'' ?au [] ?tl ?u2) = Inr (app_TC, [])"
    by (simp add: run_defs lib_defs)
  have t2: "filter is_get_accounts
              (trace (snd (open_and_list lib_corrupt_cache ''C'' ?au [] ?tl ?u2)))
     = [Call_get_accounts app_TC [], Call_get_accounts app_TC []]"
    by (simp add: run_defs lib_defs)
  from get_auth_cache_recovery [OF f2 d2, of ?e ?u2 "[''S'']"] g2 t2
  have b: "fst (open_cache_and_accounts lib_corrupt_cache ''C'' ?au [] (PStr []) False w_init)
     = Inr (app_TC, [])
   \<and> filter is_get_accounts
       (trace (snd (open_cache_and_accounts lib_corrupt_cache ''C'' ?au [] (PStr []) False
                      w_init)))
     = [Call_get_accounts app_TC [], Call_get_accounts app_TC []]" by simp
  from a b show ?thesis by simp
qed

section \<open>Properties of \<open>Authenticator\<close>\<close>

lemma strategy_calls_disjoint:
  "\<not> (is_confidential_call e \<and> is_public_call e)
   \<and> \<not> (is_confidential_call e \<and> is_ambient_call e)
   \<and> \<not> (is_public_call e \<and> is_ambient_call e)"
  by (cases e) simp_all

lemma emits_token_response:
  "emits Q (case d of
              None \<Rightarrow> exc_raise (Exn ValueError [Lit ''Could not get token.''])
            | Some kvs \<Rightarrow>
                (case map_of kvs ''access_token'' of
                   None \<Rightarrow> exc_raise (Exn ValueError [Lit ''Could not get token: '', Fmt (f kvs)])
                 | Some v \<Rightarrow> exc_return v))"
  by (auto simp: emits_raise emits_return split: option.splits)

lemma emits_client_secret_token:
  "emits is_confidential_call (client_secret_token L self secret scopes)"
  unfolding client_secret_token_def
  apply (rule emits_bind)
   apply (rule emits_lift)
  apply (rule emits_bind)
   apply (rule emits_lift)
  apply (rule emits_bind)
   apply (rule emits_call)
   apply simp
  apply (rule emits_bind)
   apply (rule emits_call)
   apply simp
  apply (rule emits_token_response)
  done

lemma emits_first_scope:
  "emits Q (case scope of
              Inl [] \<Rightarrow> exc_raise (Exn IndexError [])
            | Inl (s # ss) \<Rightarrow> exc_return s
            | Inr s \<Rightarrow> exc_return s)"
  by (auto simp: emits_raise emits_return split: sum.splits list.splits)

lemma emits_get_az_token:
  "emits is_ambient_call (get_az_token L self scope)"
  unfolding get_az_token_def
  apply (rule emits_bind)
   apply (rule emits_first_scope)
  apply (rule emits_bind)
   apply (rule emits_call)
   apply simp
  apply (rule emits_bind)
   apply (rule emits_lift)
  apply (rule emits_bind)
   apply (rule emits_call)
   apply simp
  apply (rule emits_return)
  done

lemma emits_public_app:
  "emits is_public_call
     (exc_bind (lift (get_tenant_id self))
        (\<lambda>tid. exc_bind (lift (get_client_id self))
           (\<lambda>cid. exc_bind (lift (get_scope self))
              (\<lambda>sc. exc_bind (get_auth L tid cid sc u (PStr []) (PStr []) False)
                 (\<lambda>auth. exc_return (token auth))))))"
  apply (rule emits_bind)
   apply (rule emits_lift)
  apply (rule emits_bind)
   apply (rule emits_lift)
  apply (rule emits_bind)
   apply (rule emits_lift)
  apply (rule emits_bind)
   apply (rule emits_get_auth)
  apply (rule emits_return)
  done

lemma get_public_app_token_None:
  "get_public_app_token L self None scope w =
     (case exc_bind (lift (get_tenant_id self))
        (\<lambda>tid. exc_bind (lift (get_client_id self))
           (\<lambda>cid. exc_bind (lift (get_scope self))
              (\<lambda>sc. exc_bind
                 (get_auth L tid cid sc (py_upper (self_user_name self)) (PStr []) (PStr []) False)
                 (\<lambda>auth. exc_return (token auth))))) w of
        (r, w') \<Rightarrow> (r, self, w'))"
  by (simp add: get_public_app_token_def split: prod.splits)

lemma get_token_without_secret_public:
  assumes "opt_truthy (self_client_id self)"
  shows "\<exists>evs. trace (snd (snd (get_token_without_secret L self w))) = trace w @ evs
            \<and> list_all is_public_call evs"
proof -
  let ?m = "exc_bind (lift (get_tenant_id self))
        (\<lambda>tid. exc_bind (lift (get_client_id self))
           (\<lambda>cid. exc_bind (lift (get_scope self))
              (\<lambda>sc. exc_bind
                 (get_auth L tid cid sc (py_upper (self_user_name self)) (PStr []) (PStr []) False)
                 (\<lambda>auth. exc_return (token auth)))))"
  obtain r w' where m: "?m w = (r, w')" by (cases "?m w")
  from emitsD [OF emits_public_app m]
  have "\<exists>evs. trace w' = trace w @ evs \<and> list_all is_public_call evs" .
  moreover from assms m have "snd (snd (get_token_without_secret L self w)) = w'"
    by (simp add: get_token_without_secret_def get_public_app_token_None)
  ultimately show ?thesis by simp
qed

lemma get_token_without_secret_ambient:
  assumes "\<not> opt_truthy (self_client_id self)"
  shows "\<exists>evs. trace (snd (snd (get_token_without_secret L self w))) = trace w @ evs
            \<and> list_all is_ambient_call evs"
proof -
  let ?m = "exc_bind (lift (get_scope self)) (\<lambda>s. get_az_token L self (Inl s))"
  have em: "emits is_ambient_call ?m"
    apply (rule emits_bind)
     apply (rule emits_lift)
    apply (rule emits_get_az_token)
    done
  obtain r w' where m: "?m w = (r, w')" by (cases "?m w")
  from emitsD [OF em m]
  have "\<exists>evs. trace w' = trace w @ evs \<and> list_all is_ambient_call evs" .
  moreover from assms m have "snd (snd (get_token_without_secret L self w)) = w'"
    by (simp add: get_token_without_secret_def)
  ultimately show ?thesis by simp
qed

lemma get_token_no_scope:
  assumes "self_token self = []"
    and "(case scopes of None \<Rightarrow> get_scope self | Some sc \<Rightarrow> Inr sc) = Inl e"
  shows "get_token L self scopes w = (Inl e, self, w)"
  using assms by (simp add: get_token_def)

lemma get_token_secret:
  assumes "self_token self = []"
    and "(case scopes of None \<Rightarrow> get_scope self | Some sc \<Rightarrow> Inr sc) = Inr sc"
    and "self_client_secret self = Some secret" and "secret \<noteq> []"
  shows "get_token L self scopes w
     = (fst (client_secret_token L self secret sc w), self,
        snd (client_secret_token L self secret sc w))"
  using assms by (simp add: get_token_def split: prod.splits)

lemma get_token_no_secret:
  assumes "self_token self = []"
    and "(case scopes of None \<Rightarrow> get_scope self | Some sc \<Rightarrow> Inr sc) = Inr sc"
    and "\<not> opt_truthy (self_client_secret self)"
  shows "get_token L self scopes w = get_token_without_secret L self w"
  using assms by (cases "self_client_secret self") (simp_all add: get_token_def)


lemmas auth_defs =
  get_token_def get_token_without_secret_def get_public_app_token_def client_secret_token_def
  get_az_token_def get_scope_def get_client_id_def get_tenant_id_def py_upper_def
  no_auth_def auth_preset_def auth_secret_def auth_public_def auth_ambient_def

text \<open>
  Claim C7. With a non-empty pre-set token, \<open>get_token\<close> returns exactly that string,
  makes no outside call and leaves the object and the state as they were; the result is
  the same for any behaviour of the libraries and any \<open>scopes\<close> argument, so a repeated
  call returns the same string again.
\<close>

theorem get_token_preset:
  assumes "self_token self \<noteq> []"
  shows "get_token L self scopes w = (Inr (PStr (self_token self)), self, w)
     \<and> get_token L' self scopes' w = get_token L self scopes w"
  using assms by (simp add: get_token_def)

theorem get_token_preset_witness:
  "get_token lib_invalid_client auth_preset None w_init = (Inr (PStr ''TOK''), auth_preset, w_init)
   \<and> get_token lib_ok auth_preset (Some [''S'']) w_init
       = get_token lib_invalid_client auth_preset None w_init"
proof -
  have t: "self_token auth_preset \<noteq> []" "self_token auth_preset = ''TOK''"
    by (simp_all add: auth_preset_def no_auth_def)
  from get_token_preset [OF t(1), of lib_invalid_client None w_init lib_ok "Some [''S'']"] t(2)
  show ?thesis by simp
qed

text \<open>
  Claim C6. With a client secret and no pre-set token (client id and tenant id set, so
  that the exchange takes place), a response with an \<open>access_token\<close> makes \<open>get_token\<close>
  return exactly that value; a response without one makes it raise \<open>ValueError\<close>, whose
  message carries the \<open>error_description\<close> of the response, or its \<open>error\<close> field when
  there is no description.
\<close>

theorem get_token_client_secret:
  assumes "self_token self = []"
    and "self_client_secret self = Some secret" and "secret \<noteq> []"
    and "get_client_id self = Inr cid" and "get_tenant_id self = Inr tid"
    and "sc = (case scopes of
                 Some x \<Rightarrow> x
               | None \<Rightarrow> (case self_scopes self of
                             Some (y # ys) \<Rightarrow> y # ys
                           | _ \<Rightarrow> [cid @ ''/.default'']))"
    and "ConfidentialClientApplication L w cid secret
           (''https://login.microsoftonline.com/'' @ tid) = Inr c"
    and "acquire_token_for_client L
           (w\<lparr>trace := trace w @ [Call_ConfidentialClientApplication cid secret
                                    (''https://login.microsoftonline.com/'' @ tid)]\<rparr>) c sc
           = Inr (Some d)"
  shows "(map_of d ''access_token'' = Some v \<longrightarrow> fst (get_token L self scopes w) = Inr v)
     \<and> (map_of d ''access_token'' = None \<and> map_of d ''error_description'' = Some x \<longrightarrow>
          fst (get_token L self scopes w)
            = Inl (Exn ValueError [Lit ''Could not get token: '', Fmt x]))
     \<and> (map_of d ''access_token'' = None \<and> map_of d ''error_description'' = None \<longrightarrow>
          fst (get_token L self scopes w)
            = Inl (Exn ValueError
                [Lit ''Could not get token: '',
                 Fmt (case map_of d ''error'' of Some y \<Rightarrow> y | None \<Rightarrow> PNone)]))"
proof -
  have scope: "(case scopes of None \<Rightarrow> get_scope self | Some x \<Rightarrow> Inr x) = Inr sc"
    using assms(4,6) by (auto simp: get_scope_def split: option.splits list.splits)
  have tok: "get_token L self scopes w
     = (fst (client_secret_token L self secret sc w), self,
        snd (client_secret_token L self secret sc w))"
    by (rule get_token_secret [OF assms(1) scope assms(2,3)])
  have ex: "fst (client_secret_token L self secret sc w)
     = (case map_of d ''access_token'' of
          None \<Rightarrow> Inl (Exn ValueError
                [Lit ''Could not get token: '',
                 Fmt (case map_of d ''error_description'' of
                        Some x \<Rightarrow> x
                      | None \<Rightarrow> (case map_of d ''error'' of Some y \<Rightarrow> y | None \<Rightarrow> PNone))])
        | Some v \<Rightarrow> Inr v)"
    using assms(4,5,7,8)
    by (simp add: client_secret_token_def exc_bind_def lift_def call_def exc_raise_def
        exc_return_def split: option.splits)
  show ?thesis unfolding tok using ex by simp
qed

theorem get_token_client_secret_witness:
  "fst (get_token lib_ok auth_secret None w_init) = Inr (PStr ''CCT'')
   \<and> fst (get_token lib_invalid_client auth_secret None w_init)
       = Inl (Exn ValueError [Lit ''Could not get token: '', Fmt (PStr ''AADSTS7000215'')])"
proof -
  let ?au = "''https://login.microsoftonline.com/T''"
  let ?w = "w_init\<lparr>trace := trace w_init @ [Call_ConfidentialClientApplication ''C'' ''s3'' ?au]\<rparr>"
  have a: "self_token auth_secret = []" "self_client_secret auth_secret = Some ''s3''"
    "''s3'' \<noteq> []" "get_client_id auth_secret = Inr ''C''" "get_tenant_id auth_secret = Inr ''T''"
    by (simp_all add: auth_defs)
  have sc: "[''C/.default''] = (case (None :: string list option) of
                 Some x \<Rightarrow> x
               | None \<Rightarrow> (case self_scopes auth_secret of
                             Some (y # ys) \<Rightarrow> y # ys
                           | _ \<Rightarrow> [''C'' @ ''/.default'']))"
    by (simp add: auth_defs)
  have c1: "ConfidentialClientApplication lib_ok w_init ''C'' ''s3''
              (''https://login.microsoftonline.com/'' @ ''T'') = Inr (ConfidentialApp ''C'' ''s3'' ?au)"
    by (simp add: lib_defs)
  have c2: "ConfidentialClientApplication lib_invalid_client w_init ''C'' ''s3''
              (''https://login.microsoftonline.com/'' @ ''T'') = Inr (ConfidentialApp ''C'' ''s3'' ?au)"
    by (simp add: lib_defs)
  have x1: "acquire_token_for_client lib_ok
           (w_init\<lparr>trace := trace w_init @ [Call_ConfidentialClientApplication ''C'' ''s3''
                                    (''https://login.microsoftonline.com/'' @ ''T'')]\<rparr>)
           (ConfidentialApp ''C'' ''s3'' ?au) [''C/.default'']
           = Inr (Some [(''access_token'', PStr ''CCT'')])"
    by (simp add: lib_defs)
  have x2: "acquire_token_for_client lib_invalid_client
           (w_init\<lparr>trace := trace w_init @ [Call_ConfidentialClientApplication ''C'' ''s3''
                                    (''https://login.microsoftonline.com/'' @ ''T'')]\<rparr>)
           (ConfidentialApp ''C'' ''s3'' ?au) [''C/.default'']
           = Inr (Some [(''error'', PStr ''invalid_client''),
                        (''error_description'', PStr ''AADSTS7000215'')])"
    by (simp add: lib_defs)
  from get_token_client_secret [OF a sc c1 x1, of "PStr ''CCT''" PNone]
    get_token_client_secret [OF a sc c2 x2, of PNone "PStr ''AADSTS7000215''"]
  show ?thesis by simp
qed


text \<open>
  Claim C5. \<open>get_token\<close> follows one strategy, the first that matches. A pre-set token
  is returned as it is. Otherwise, with a client secret only calls of the confidential
  client are made: its construction and, if that succeeds, the exchange for the resolved
  scopes. Otherwise, with a client id only calls of the public-client path are made, and
  the result is that of \<open>get_auth\<close>. Otherwise only calls of the ambient credential are
  made: the lookup for the first configured scope, with the tenant id as hint. The three
  kinds of calls are disjoint (\<open>strategy_calls_disjoint\<close>).
\<close>

theorem get_token_first_match:
  "(self_token self \<noteq> [] \<longrightarrow>
      get_token L self scopes w = (Inr (PStr (self_token self)), self, w))
   \<and> (self_token self = [] \<and> opt_truthy (self_client_secret self) \<longrightarrow>
      (\<exists>evs. trace (snd (snd (get_token L self scopes w))) = trace w @ evs
             \<and> list_all is_confidential_call evs))
   \<and> (self_token self = [] \<and> self_client_secret self = Some secret \<and> secret \<noteq> []
        \<and> get_client_id self = Inr cid \<and> get_tenant_id self = Inr tid
        \<and> ConfidentialClientApplication L w cid secret
             (''https://login.microsoftonline.com/'' @ tid) = Inr c \<longrightarrow>
      trace (snd (snd (get_token L self scopes w)))
        = trace w @
          [Call_ConfidentialClientApplication cid secret
             (''https://login.microsoftonline.com/'' @ tid),
           Call_acquire_token_for_client c
             (case scopes of
                Some x \<Rightarrow> x
              | None \<Rightarrow> (case self_scopes self of
                            Some (y # ys) \<Rightarrow> y # ys
                          | _ \<Rightarrow> [cid @ ''/.default'']))])
   \<and> (self_token self = [] \<and> \<not> opt_truthy (self_client_secret self)
        \<and> opt_truthy (self_client_id self) \<longrightarrow>
      (\<exists>evs. trace (snd (snd (get_token L self scopes w))) = trace w @ evs
             \<and> list_all is_public_call evs))
   \<and> (self_token self = [] \<and> \<not> opt_truthy (self_client_secret self)
        \<and> get_client_id self = Inr cid \<and> get_tenant_id self = Inr tid
        \<and> get_scope self = Inr sc \<longrightarrow>
      get_token L self scopes w
        = (case get_auth L tid cid sc (py_upper (self_user_name self)) (PStr []) (PStr [])
                  False w of
             (Inl e, w') \<Rightarrow> (Inl e, self, w')
           | (Inr b, w') \<Rightarrow> (Inr (token b), self, w')))
   \<and> (self_token self = [] \<and> \<not> opt_truthy (self_client_secret self)
        \<and> \<not> opt_truthy (self_client_id self) \<longrightarrow>
      (\<exists>evs. trace (snd (snd (get_token L self scopes w))) = trace w @ evs
             \<and> list_all is_ambient_call evs))
   \<and> (self_token self = [] \<and> \<not> opt_truthy (self_client_secret self)
        \<and> \<not> opt_truthy (self_client_id self)
        \<and> self_scopes self = Some (s # ss) \<and> get_tenant_id self = Inr tid
        \<and> DefaultAzureCredential L w = Inr cr \<longrightarrow>
      trace (snd (snd (get_token L self scopes w)))
        = trace w @ [Call_DefaultAzureCredential, Call_credential_get_token cr s tid]
      \<and> fst (get_token L self scopes w)
        = (case credential_get_token L (w\<lparr>trace := trace w @ [Call_DefaultAzureCredential]\<rparr>)
                  cr s tid of
             Inl e \<Rightarrow> Inl e
           | Inr tok \<Rightarrow> Inr (PStr (fst tok))))"
proof -
  have ambient: "trace (snd (snd (get_token L self scopes w)))
          = trace w @ [Call_DefaultAzureCredential, Call_credential_get_token cr s tid]
        \<and> fst (get_token L self scopes w)
          = (case credential_get_token L (w\<lparr>trace := trace w @ [Call_DefaultAzureCredential]\<rparr>)
                    cr s tid of
               Inl e \<Rightarrow> Inl e
             | Inr tok \<Rightarrow> Inr (PStr (fst tok)))"
    if a: "self_token self = [] \<and> \<not> opt_truthy (self_client_secret self)
          \<and> \<not> opt_truthy (self_client_id self)
          \<and> self_scopes self = Some (s # ss) \<and> get_tenant_id self = Inr tid
          \<and> DefaultAzureCredential L w = Inr cr"
  proof -
    from a have gs: "get_scope self = Inr (s # ss)" by (simp add: get_scope_def)
    then obtain sc' where scope:
      "(case scopes of None \<Rightarrow> get_scope self | Some x \<Rightarrow> Inr x) = Inr sc'"
      by (cases scopes) auto
    from a have tok: "get_token L self scopes w = get_token_without_secret L self w"
      by (intro get_token_no_secret [OF _ scope]) simp_all
    have az: "exc_bind (lift (get_scope self)) (\<lambda>x. get_az_token L self (Inl x)) w
       = (case credential_get_token L (w\<lparr>trace := trace w @ [Call_DefaultAzureCredential]\<rparr>)
                    cr s tid of
               Inl e \<Rightarrow> Inl e
             | Inr tok \<Rightarrow> Inr (PStr (fst tok)),
          w\<lparr>trace := trace w @ [Call_DefaultAzureCredential, Call_credential_get_token cr s tid]\<rparr>)"
      using a gs
      by (simp add: get_az_token_def exc_bind_def lift_def call_def exc_return_def
          split: sum.splits)
    from a tok az show ?thesis
      by (simp add: get_token_without_secret_def)
  qed
  show ?thesis
  proof (intro conjI impI)
    assume "self_token self \<noteq> []"
    then show "get_token L self scopes w = (Inr (PStr (self_token self)), self, w)"
      by (simp add: get_token_def)
  next
    assume a: "self_token self = [] \<and> opt_truthy (self_client_secret self)"
    then obtain secret' where sec: "self_client_secret self = Some secret'" "secret' \<noteq> []"
      by (cases "self_client_secret self") auto
    show "\<exists>evs. trace (snd (snd (get_token L self scopes w))) = trace w @ evs
               \<and> list_all is_confidential_call evs"
    proof (cases "case scopes of None \<Rightarrow> get_scope self | Some x \<Rightarrow> Inr x")
      case (Inl e)
      from get_token_no_scope [OF conjunct1 [OF a] Inl, of L w] show ?thesis by simp
    next
      case (Inr sc')
      obtain r w' where m: "client_secret_token L self secret' sc' w = (r, w')"
        by (cases "client_secret_token L self secret' sc' w")
      from emitsD [OF emits_client_secret_token m]
      have "\<exists>evs. trace w' = trace w @ evs \<and> list_all is_confidential_call evs" .
      with get_token_secret [OF conjunct1 [OF a] Inr sec, of L w] m show ?thesis by simp
    qed
  next
    assume a: "self_token self = [] \<and> self_client_secret self = Some secret \<and> secret \<noteq> []
          \<and> get_client_id self = Inr cid \<and> get_tenant_id self = Inr tid
          \<and> ConfidentialClientApplication L w cid secret
               (''https://login.microsoftonline.com/'' @ tid) = Inr c"
    let ?sc = "case scopes of
                  Some x \<Rightarrow> x
                | None \<Rightarrow> (case self_scopes self of
                              Some (y # ys) \<Rightarrow> y # ys
                            | _ \<Rightarrow> [cid @ ''/.default''])"
    have scope: "(case scopes of None \<Rightarrow> get_scope self | Some x \<Rightarrow> Inr x) = Inr ?sc"
      using a by (auto simp: get_scope_def split: option.splits list.splits)
    have tok: "get_token L self scopes w
       = (fst (client_secret_token L self secret ?sc w), self,
          snd (client_secret_token L self secret ?sc w))"
      using a by (intro get_token_secret [OF _ scope]) simp_all
    have "trace (snd (client_secret_token L self secret ?sc w))
       = trace w @
            [Call_ConfidentialClientApplication cid secret
               (''https://login.microsoftonline.com/'' @ tid),
             Call_acquire_token_for_client c ?sc]"
      using a
      by (simp add: client_secret_token_def exc_bind_def lift_def call_def exc_raise_def
          exc_return_def split: option.splits sum.splits)
    with tok show "trace (snd (snd (get_token L self scopes w)))
          = trace w @
            [Call_ConfidentialClientApplication cid secret
               (''https://login.microsoftonline.com/'' @ tid),
             Call_acquire_token_for_client c ?sc]"
      by simp
  next
    assume a: "self_token self = [] \<and> \<not> opt_truthy (self_client_secret self)
          \<and> opt_truthy (self_client_id self)"
    show "\<exists>evs. trace (snd (snd (get_token L self scopes w))) = trace w @ evs
               \<and> list_all is_public_call evs"
    proof (cases "case scopes of None \<Rightarrow> get_scope self | Some x \<Rightarrow> Inr x")
      case (Inl e)
      from get_token_no_scope [OF conjunct1 [OF a] Inl, of L w] show ?thesis by simp
    next
      case (Inr sc')
      from a have "get_token L self scopes w = get_token_without_secret L self w"
        by (intro get_token_no_secret [OF _ Inr]) simp_all
      with get_token_without_secret_public [of self L w] a show ?thesis by simp
    qed
  next
    assume a: "self_token self = [] \<and> \<not> opt_truthy (self_client_secret self)
          \<and> get_client_id self = Inr cid \<and> get_tenant_id self = Inr tid
          \<and> get_scope self = Inr sc"
    then have cid: "opt_truthy (self_client_id self)"
      by (auto simp: get_client_id_def split: option.splits if_splits)
    from a obtain sc' where scope:
      "(case scopes of None \<Rightarrow> get_scope self | Some x \<Rightarrow> Inr x) = Inr sc'"
      by (cases scopes) auto
    from a have "get_token L self scopes w = get_token_without_secret L self w"
      by (intro get_token_no_secret [OF _ scope]) simp_all
    also have "\<dots> = get_public_app_token L self None None w"
      using cid by (simp add: get_token_without_secret_def)
    also have "\<dots> = (case get_auth L tid cid sc (py_upper (self_user_name self)) (PStr []) (PStr [])
                    False w of
               (Inl e, w') \<Rightarrow> (Inl e, self, w')
             | (Inr b, w') \<Rightarrow> (Inr (token b), self, w'))"
      using a
      by (simp add: get_public_app_token_None exc_bind_def lift_def exc_return_def
          split: prod.splits sum.splits)
    finally show "get_token L self scopes w
          = (case get_auth L tid cid sc (py_upper (self_user_name self)) (PStr []) (PStr [])
                    False w of
               (Inl e, w') \<Rightarrow> (Inl e, self, w')
             | (Inr b, w') \<Rightarrow> (Inr (token b), self, w'))" .
  next
    assume a: "self_token self = [] \<and> \<not> opt_truthy (self_client_secret self)
          \<and> \<not> opt_truthy (self_client_id self)"
    show "\<exists>evs. trace (snd (snd (get_token L self scopes w))) = trace w @ evs
               \<and> list_all is_ambient_call evs"
    proof (cases "case scopes of None \<Rightarrow> get_scope self | Some x \<Rightarrow> Inr x")
      case (Inl e)
      from get_token_no_scope [OF conjunct1 [OF a] Inl, of L w] show ?thesis by simp
    next
      case (Inr sc')
      from a have "get_token L self scopes w = get_token_without_secret L self w"
        by (intro get_token_no_secret [OF _ Inr]) simp_all
      with get_token_without_secret_ambient [of self L w] a show ?thesis by simp
    qed
  next
    assume a: "self_token self = [] \<and> \<not> opt_truthy (self_client_secret self)
          \<and> \<not> opt_truthy (self_client_id self)
          \<and> self_scopes self = Some (s # ss) \<and> get_tenant_id self = Inr tid
          \<and> DefaultAzureCredential L w = Inr cr"
    from ambient [OF a]
    show "trace (snd (snd (get_token L self scopes w)))
        = trace w @ [Call_DefaultAzureCredential, Call_credential_get_token cr s tid]" by simp
  next
    assume a: "self_token self = [] \<and> \<not> opt_truthy (self_client_secret self)
          \<and> \<not> opt_truthy (self_client_id self)
          \<and> self_scopes self = Some (s # ss) \<and> get_tenant_id self = Inr tid
          \<and> DefaultAzureCredential L w = Inr cr"
    from ambient [OF a]
    show "fst (get_token L self scopes w)
        = (case credential_get_token L (w\<lparr>trace := trace w @ [Call_DefaultAzureCredential]\<rparr>)
                  cr s tid of
             Inl e \<Rightarrow> Inl e
           | Inr tok \<Rightarrow> Inr (PStr (fst tok)))" by simp
  qed
qed


theorem get_token_first_match_witness:
  "get_token lib_ok auth_preset None w_init = (Inr (PStr ''TOK''), auth_preset, w_init)
   \<and> trace (snd (snd (get_token lib_ok auth_secret None w_init)))
       = [Call_ConfidentialClientApplication ''C'' ''s3'' ''https://login.microsoftonline.com/T'',
          Call_acquire_token_for_client
            (ConfidentialApp ''C'' ''s3'' ''https://login.microsoftonline.com/T'')
            [''C/.default'']]
   \<and> fst (get_token lib_ok auth_public None w_init) = Inr (PStr ''XYZ'')
   \<and> trace (snd (snd (get_token lib_ok auth_ambient None w_init)))
       = [Call_DefaultAzureCredential, Call_credential_get_token AzureCredential ''S'' ''T'']
   \<and> fst (get_token lib_ok auth_ambient None w_init) = Inr (PStr ''AZT'')"
proof -
  have t0: "trace w_init = []"
    by (simp add: w_init_def initial_world_def)
  have p: "self_token auth_preset \<noteq> []" "self_token auth_preset = ''TOK''"
    by (simp_all add: auth_defs)
  from get_token_first_match [where self = auth_preset and L = lib_ok and scopes = None
      and w = w_init] p
  have c1: "get_token lib_ok auth_preset None w_init
              = (Inr (PStr ''TOK''), auth_preset, w_init)"
    by simp
  have s: "self_token auth_secret = [] \<and> self_client_secret auth_secret = Some ''s3''
      \<and> ''s3'' \<noteq> [] \<and> get_client_id auth_secret = Inr ''C''
      \<and> get_tenant_id auth_secret = Inr ''T''
      \<and> ConfidentialClientApplication lib_ok w_init ''C'' ''s3''
           (''https://login.microsoftonline.com/'' @ ''T'')
         = Inr (ConfidentialApp ''C'' ''s3'' ''https://login.microsoftonline.com/T'')"
    by (simp add: auth_defs lib_defs)
  have ss: "self_scopes auth_secret = Some []"
    by (simp add: auth_defs)
  from get_token_first_match [where self = auth_secret and L = lib_ok and scopes = None
      and w = w_init and secret = "''s3''" and cid = "''C''" and tid = "''T''"
      and c = "ConfidentialApp ''C'' ''s3'' ''https://login.microsoftonline.com/T''"] s ss t0
  have c2: "trace (snd (snd (get_token lib_ok auth_secret None w_init)))
       = [Call_ConfidentialClientApplication ''C'' ''s3'' ''https://login.microsoftonline.com/T'',
          Call_acquire_token_for_client
            (ConfidentialApp ''C'' ''s3'' ''https://login.microsoftonline.com/T'')
            [''C/.default'']]"
    by simp
  have u: "self_token auth_public = [] \<and> \<not> opt_truthy (self_client_secret auth_public)
      \<and> get_client_id auth_public = Inr ''C'' \<and> get_tenant_id auth_public = Inr ''T''
      \<and> get_scope auth_public = Inr [''C/.default'']"
    by (simp add: auth_defs)
  have g: "fst (get_auth lib_ok ''T'' ''C'' [''C/.default''] (py_upper (self_user_name auth_public))
             (PStr []) (PStr []) False w_init) = Inr \<lparr>token = PStr ''XYZ''\<rparr>"
    by (simp add: run_defs lib_defs auth_defs)
  from get_token_first_match [where self = auth_public and L = lib_ok and scopes = None
      and w = w_init and cid = "''C''" and tid = "''T''" and sc = "[''C/.default'']"] u
  have "get_token lib_ok auth_public None w_init
        = (case get_auth lib_ok ''T'' ''C'' [''C/.default''] (py_upper (self_user_name auth_public))
                  (PStr []) (PStr []) False w_init of
             (Inl e, w') \<Rightarrow> (Inl e, auth_public, w')
           | (Inr b, w') \<Rightarrow> (Inr (token b), auth_public, w'))"
    by simp
  with g have c3: "fst (get_token lib_ok auth_public None w_init) = Inr (PStr ''XYZ'')"
    by (simp split: prod.splits sum.splits)
  have a: "self_token auth_ambient = [] \<and> \<not> opt_truthy (self_client_secret auth_ambient)
      \<and> \<not> opt_truthy (self_client_id auth_ambient)
      \<and> self_scopes auth_ambient = Some (''S'' # []) \<and> get_tenant_id auth_ambient = Inr ''T''
      \<and> DefaultAzureCredential lib_ok w_init = Inr AzureCredential"
    by (simp add: auth_defs lib_defs)
  have k: "credential_get_token lib_ok (w_init\<lparr>trace := trace w_init @ [Call_DefaultAzureCredential]\<rparr>)
             AzureCredential ''S'' ''T'' = Inr (''AZT'', 0)"
    by (simp add: lib_defs)
  from get_token_first_match [where self = auth_ambient and L = lib_ok and scopes = None
      and w = w_init and tid = "''T''" and s = "''S''" and ss = "[]" and cr = AzureCredential]
    a k t0
  have c4: "trace (snd (snd (get_token lib_ok auth_ambient None w_init)))
       = [Call_DefaultAzureCredential, Call_credential_get_token AzureCredential ''S'' ''T'']
   \<and> fst (get_token lib_ok auth_ambient None w_init) = Inr (PStr ''AZT'')"
    by simp
  from c1 c2 c3 c4 show ?thesis by simp
qed

end
